theory Spec2Isabelle
  imports Main "HOL-Library.Multiset"
begin

section \<open>The deadline chart of script.js\<close>

text \<open>
  The script loads a table of ballot deadlines, sorts it, builds a time scale and a band
  scale, draws axes, a legend and the marks, and redraws on every change of one of three
  radio inputs. The embedding follows the script from top to bottom. What the script gets
  from the d3 library and from the host is modelled as follows.

  \<^item> A \<open>Date\<close> produced by \<open>d3.timeParse('%m/%d/%Y')\<close> is the local midnight of a calendar
    day. It is modelled by the number of that day, an \<open>int\<close>; \<open>null\<close> is \<open>None\<close>. Comparing
    two such dates compares their day numbers, and \<open>d3.timeDay.offset\<close> adds calendar days.
  \<^item> \<open>d3.timeParse('%m/%d/%Y')\<close> is library code. It is modelled after the parser of
    d3-time-format for this specifier: a number is optional white space and digits within
    the next two (for the year, four) characters, the two slashes are literal, nothing may
    be left over, and the fields go to the \<open>Date\<close> constructor unchecked. It returns
    \<open>null\<close> where it does not match and raises no error.
  \<^item> The two scales are records of their domain and range. Applying a scale is a parameter:
    \<open>xpos ts v\<close> stands for \<open>x(v)\<close> under the time scale \<open>ts\<close>, and \<open>ycenter bs s\<close> for
    \<open>y(s) + y.bandwidth() / 2\<close> under the band scale \<open>bs\<close>.
  \<^item> The chart's group element is the list of its children in document order. A selection by
    class is the sublist of the children carrying that class.
\<close>

subsection \<open>Constants\<close>

type_synonym date = int

definition margin_top :: int where "margin_top = 60"
definition margin_right :: int where "margin_right = 20"
definition margin_bottom :: int where "margin_bottom = 80"
definition margin_left :: int where "margin_left = 150"

definition width :: int where
  "width = 1200 - margin_left - margin_right"

definition rowHeight :: int where "rowHeight = 20"

definition highlightedStates :: "string list" where
  "highlightedStates =
     [''Pennsylvania'', ''Georgia'', ''North Carolina'', ''Wisconsin'', ''Michigan'',
      ''Arizona'', ''Nevada'', ''Nebraska'', ''New Hampshire'', ''Ohio'', ''Montana'']"

record filter_state =
  all :: bool
  post :: bool
  postElectronic :: bool

text \<open>The initial value of the variable \<open>filters\<close>.\<close>

definition filters_init :: filter_state where
  "filters_init = \<lparr> all = True, post = True, postElectronic = True \<rparr>"

subsection \<open>Calendar days\<close>

text \<open>
  The number of the calendar day \<open>y-m-d\<close> (proleptic Gregorian), counted from 1970-01-01,
  and the calendar day of a number.
\<close>

definition date_of_ymd :: "int \<Rightarrow> int \<Rightarrow> int \<Rightarrow> date" where
  "date_of_ymd y m d =
     (let y' = (if m \<le> 2 then y - 1 else y);
          era = y' div 400;
          yoe = y' - era * 400;
          doy = (153 * (if m > 2 then m - 3 else m + 9) + 2) div 5 + d - 1;
          doe = yoe * 365 + yoe div 4 - yoe div 100 + doy
      in era * 146097 + doe - 719468)"

definition ymd_of_date :: "date \<Rightarrow> int \<times> int \<times> int" where
  "ymd_of_date t =
     (let z = t + 719468;
          era = z div 146097;
          doe = z - era * 146097;
          yoe = (doe - doe div 1460 + doe div 36524 - doe div 146096) div 365;
          doy = doe - (365 * yoe + yoe div 4 - yoe div 100);
          mp = (5 * doy + 2) div 153;
          d = doy - (153 * mp + 2) div 5 + 1;
          m = (if mp < 10 then mp + 3 else mp - 9)
      in (if m \<le> 2 then yoe + era * 400 + 1 else yoe + era * 400, m, d))"

text \<open>
  The \<open>Date\<close> constructor on a year, a month index (0 is January) and a day of the month:
  months beyond the year and days beyond the month roll over.
\<close>

definition make_day :: "int \<Rightarrow> int \<Rightarrow> int \<Rightarrow> date" where
  "make_day y mi d = date_of_ymd (y + mi div 12) (mi mod 12 + 1) 1 + (d - 1)"

text \<open>\<open>setFullYear\<close> keeps the month and the day of the month.\<close>

definition setFullYear :: "int \<Rightarrow> date \<Rightarrow> date" where
  "setFullYear y t = (case ymd_of_date t of (yy, m, d) \<Rightarrow> make_day y (m - 1) d)"

subsection \<open>The parser of dates\<close>

text \<open>The characters that the classes \<open>s\<close> and \<open>d\<close> of a regular expression match, below 256.\<close>

definition is_space :: "char \<Rightarrow> bool" where
  "is_space c = (c \<in> set [CHR '' '', CHR 0x09, CHR 0x0A, CHR 0x0B, CHR 0x0C, CHR 0x0D, CHR 0xA0])"

definition is_digit :: "char \<Rightarrow> bool" where
  "is_digit c = (c \<in> set ''0123456789'')"

text \<open>The number that a string of digits denotes.\<close>

definition number_value :: "string \<Rightarrow> int" where
  "number_value ds = foldl (\<lambda>a c. 10 * a + (int (of_char c) - 48)) 0 ds"

text \<open>
  \<open>numberRe.exec(string.slice(i, i + k))\<close>, where \<open>numberRe\<close> is optional white space and
  then one or more digits at the start, on the rest of the string from \<open>i\<close>: the number
  matched and the rest behind the match, or \<open>None\<close>.
\<close>

definition number_match :: "nat \<Rightarrow> string \<Rightarrow> (int \<times> string) option" where
  "number_match k s =
     (let sl = take k s;
          ws = takeWhile is_space sl;
          ds = takeWhile is_digit (dropWhile is_space sl)
      in if ds = [] then None
         else Some (number_value ds, drop (length ws + length ds) s))"

text \<open>
  \<open>parseSpecifier\<close> on \<open>%m/%d/%Y\<close>, and the test that the whole string was read: the year,
  the month index and the day, or \<open>None\<close>. Before each directive and each literal the string
  must not be exhausted.
\<close>

definition parse_fields :: "string \<Rightarrow> (int \<times> int \<times> int) option" where
  "parse_fields s =
     (if s = [] then None
      else case number_match 2 s of
        None \<Rightarrow> None
      | Some (mo, s1) \<Rightarrow>
          (case s1 of
             [] \<Rightarrow> None
           | c1 # s2 \<Rightarrow>
               if c1 \<noteq> CHR ''/'' then None
               else if s2 = [] then None
               else case number_match 2 s2 of
                 None \<Rightarrow> None
               | Some (dy, s3) \<Rightarrow>
                   (case s3 of
                      [] \<Rightarrow> None
                    | c2 # s4 \<Rightarrow>
                        if c2 \<noteq> CHR ''/'' then None
                        else if s4 = [] then None
                        else case number_match 4 s4 of
                          None \<Rightarrow> None
                        | Some (yr, s5) \<Rightarrow>
                            if s5 \<noteq> [] then None else Some (yr, mo - 1, dy))))"

text \<open>\<open>localDate\<close>: a year from 0 to 99 is set after the date is made in the year -1.\<close>

definition localDate :: "int \<times> int \<times> int \<Rightarrow> date" where
  "localDate f =
     (case f of (y, mi, d) \<Rightarrow>
        if 0 \<le> y \<and> y < 100 then setFullYear y (make_day (- 1) mi d) else make_day y mi d)"

definition parseDate :: "string \<Rightarrow> date option" where
  "parseDate s = map_option localDate (parse_fields s)"

subsection \<open>The row accessor\<close>

record raw_row =
  col_State :: string
  col_Recommended_Mail_Date :: string
  col_Ballot_Postmark_Deadline :: string
  col_Ballot_Receipt_Deadline :: string
  col_Return_Methods :: string

record entry =
  state :: string
  recommended_mail_date :: "date option"
  ballot_postmark_deadline :: "date option"
  ballot_receipt_deadline :: "date option"
  return_methods :: string

text \<open>One date cell: \<open>cell === "N/A" ? null : parseDate(cell)\<close>.\<close>

definition date_cell :: "string \<Rightarrow> date option" where
  "date_cell c = (if c = ''N/A'' then None else parseDate c)"

definition row_accessor :: "raw_row \<Rightarrow> entry" where
  "row_accessor d =
     \<lparr> state = col_State d,
       recommended_mail_date = date_cell (col_Recommended_Mail_Date d),
       ballot_postmark_deadline = date_cell (col_Ballot_Postmark_Deadline d),
       ballot_receipt_deadline = date_cell (col_Ballot_Receipt_Deadline d),
       return_methods = col_Return_Methods d \<rparr>"

subsection \<open>Sorting the loaded rows\<close>

text \<open>\<open>d3.ascending\<close> on two dates.\<close>

definition d3_ascending :: "date \<Rightarrow> date \<Rightarrow> int" where
  "d3_ascending a b = (if a < b then - 1 else if a > b then 1 else 0)"

text \<open>The comparator handed to \<open>data.sort\<close>.\<close>

definition sort_compare :: "entry \<Rightarrow> entry \<Rightarrow> int" where
  "sort_compare a b =
     (case recommended_mail_date a of
        None \<Rightarrow> 1
      | Some da \<Rightarrow>
          (case recommended_mail_date b of
             None \<Rightarrow> - 1
           | Some db \<Rightarrow> d3_ascending da db))"

text \<open>
  \<open>Array.prototype.sort\<close> belongs to the host. It is modelled as the stable insertion sort
  that places each element, taken from left to right, in front of the first element of the
  sorted prefix that the comparator puts strictly after it (\<open>cmp x y < 0\<close>).
\<close>

fun insert_by :: "('a \<Rightarrow> 'a \<Rightarrow> int) \<Rightarrow> 'a \<Rightarrow> 'a list \<Rightarrow> 'a list" where
  "insert_by cmp x [] = [x]"
| "insert_by cmp x (y # ys) =
     (if cmp x y < 0 then x # y # ys else y # insert_by cmp x ys)"

definition array_sort :: "('a \<Rightarrow> 'a \<Rightarrow> int) \<Rightarrow> 'a list \<Rightarrow> 'a list" where
  "array_sort cmp xs = foldl (\<lambda>acc x. insert_by cmp x acc) [] xs"

definition sort_data :: "entry list \<Rightarrow> entry list" where
  "sort_data xs = array_sort sort_compare xs"

subsection \<open>The scales\<close>

text \<open>
  The values the accessor of \<open>d3.min\<close> yields here: a date, or \<open>Infinity\<close> for a row
  without a recommended mail date.
\<close>

datatype tval = TDate date | TInfinity

fun tval_gt :: "tval \<Rightarrow> tval \<Rightarrow> bool" where
  "tval_gt (TDate a) (TDate b) = (a > b)"
| "tval_gt TInfinity (TDate b) = True"
| "tval_gt (TDate a) TInfinity = False"
| "tval_gt TInfinity TInfinity = False"

text \<open>
  One round of the loop of \<open>d3.min\<close>: the value replaces the minimum when the minimum is
  greater, or when there is no minimum yet. \<open>None\<close> is \<open>undefined\<close>.
\<close>

definition min_step :: "tval option \<Rightarrow> tval \<Rightarrow> tval option" where
  "min_step m v =
     (case m of
        None \<Rightarrow> Some v
      | Some m' \<Rightarrow> if tval_gt m' v then Some v else Some m')"

definition mail_or_infinity :: "entry \<Rightarrow> tval" where
  "mail_or_infinity d =
     (case recommended_mail_date d of Some t \<Rightarrow> TDate t | None \<Rightarrow> TInfinity)"

definition minDate :: "entry list \<Rightarrow> tval option" where
  "minDate xs = foldl min_step None (map mail_or_infinity xs)"

text \<open>
  \<open>d3.timeDay.offset(v, k)\<close> makes a \<open>Date\<close> of \<open>v\<close> and moves it by \<open>k\<close> calendar days. Of
  \<open>undefined\<close> or \<open>Infinity\<close> it makes an invalid date, here \<open>None\<close>.
\<close>

fun timeDay_offset :: "tval option \<Rightarrow> int \<Rightarrow> date option" where
  "timeDay_offset (Some (TDate t)) k = Some (t + k)"
| "timeDay_offset (Some TInfinity) k = None"
| "timeDay_offset None k = None"

definition startDate :: "entry list \<Rightarrow> date option" where
  "startDate xs = timeDay_offset (minDate xs) (- 10)"

text \<open>One round of the loop of \<open>d3.max\<close>, which skips \<open>null\<close>.\<close>

definition max_step :: "date option \<Rightarrow> date option \<Rightarrow> date option" where
  "max_step m v =
     (case v of
        None \<Rightarrow> m
      | Some t \<Rightarrow>
          (case m of
             None \<Rightarrow> Some t
           | Some m' \<Rightarrow> if m' < t then Some t else Some m'))"

definition endDate :: "entry list \<Rightarrow> date option" where
  "endDate xs = foldl max_step None (map ballot_receipt_deadline xs)"

record time_scale =
  t_domain :: "date option \<times> date option"
  t_range :: "int \<times> int"

record band_scale =
  b_domain :: "string list"
  b_range :: "int \<times> int"
  b_padding :: "int \<times> int"

text \<open>
  Setting the domain of a band scale keeps the first occurrence of every value, in the
  order of the values.
\<close>

definition domain_step :: "string list \<Rightarrow> string \<Rightarrow> string list" where
  "domain_step acc v = (if v \<in> set acc then acc else acc @ [v])"

definition band_domain :: "string list \<Rightarrow> string list" where
  "band_domain vs = foldl domain_step [] vs"

definition x_scale_of :: "entry list \<Rightarrow> time_scale" where
  "x_scale_of xs = \<lparr> t_domain = (startDate xs, endDate xs), t_range = (0, width) \<rparr>"

definition height_of :: "entry list \<Rightarrow> int" where
  "height_of xs = int (length xs) * rowHeight"

text \<open>The padding 0.2 is kept as the fraction 1/5.\<close>

definition y_scale_of :: "entry list \<Rightarrow> band_scale" where
  "y_scale_of xs =
     \<lparr> b_domain = band_domain (map state xs),
       b_range = (0, height_of xs),
       b_padding = (1, 5) \<rparr>"

subsection \<open>The elements of the chart\<close>

record tick =
  datum :: string
  label :: string
  tclasses :: "string list"

text \<open>
  A child of the chart's group: a line or a circle with its class and attributes, an axis
  group with the labels of its ticks, or another element (tag and class) that carries no
  mark.
\<close>

datatype 'p elem =
    LineEl "string list" 'p 'p 'p 'p string
  | CircleEl "string list" 'p 'p int string
  | AxisG "string list" "tick list"
  | OtherEl string "string list"

fun classes_of :: "'p elem \<Rightarrow> string list" where
  "classes_of (LineEl cs x1 x2 y1 y2 stroke) = cs"
| "classes_of (CircleEl cs cx cy r fill) = cs"
| "classes_of (AxisG cs ts) = cs"
| "classes_of (OtherEl tag cs) = cs"

definition has_class :: "string \<Rightarrow> 'p elem \<Rightarrow> bool" where
  "has_class c e = (c \<in> set (classes_of e))"

definition selectAll :: "string \<Rightarrow> 'p elem list \<Rightarrow> 'p elem list" where
  "selectAll c svg = filter (has_class c) svg"

text \<open>
  The enter selection of a join by index: the data beyond the elements already selected.
\<close>

definition enter :: "'p elem list \<Rightarrow> 'a list \<Rightarrow> 'a list" where
  "enter sel ds = drop (length sel) ds"

subsection \<open>The y axis\<close>

definition tickFormat :: "string \<Rightarrow> string" where
  "tickFormat d = (if d \<in> set highlightedStates then d else d)"

definition renderYAxis :: "band_scale \<Rightarrow> 'p elem list \<Rightarrow> 'p elem list" where
  "renderYAxis y svg =
     svg @ [AxisG [''y-axis'']
              (map (\<lambda>s. \<lparr> datum = s, label = tickFormat s, tclasses = [] \<rparr>) (b_domain y))]"

text \<open>\<open>classed(name, value)\<close>: the class is added when the value is true, removed otherwise.\<close>

definition classed :: "string \<Rightarrow> bool \<Rightarrow> string list \<Rightarrow> string list" where
  "classed name v cs =
     (if v then (if name \<in> set cs then cs else cs @ [name])
      else filter (\<lambda>c. c \<noteq> name) cs)"

definition style_tick :: "string list \<Rightarrow> tick \<Rightarrow> tick" where
  "style_tick hs t =
     t \<lparr> tclasses :=
           classed ''normal-tick'' (datum t \<notin> set hs)
             (classed ''highlighted-tick'' (datum t \<in> set hs) (tclasses t)) \<rparr>"

fun style_elem :: "string list \<Rightarrow> 'p elem \<Rightarrow> 'p elem" where
  "style_elem hs (AxisG cs ts) =
     (if ''y-axis'' \<in> set cs then AxisG cs (map (style_tick hs) ts) else AxisG cs ts)"
| "style_elem hs (LineEl cs x1 x2 y1 y2 stroke) = LineEl cs x1 x2 y1 y2 stroke"
| "style_elem hs (CircleEl cs cx cy r fill) = CircleEl cs cx cy r fill"
| "style_elem hs (OtherEl tag cs) = OtherEl tag cs"

definition styleHighlightedStatesYAxis :: "'p elem list \<Rightarrow> string list \<Rightarrow> 'p elem list" where
  "styleHighlightedStatesYAxis svg hs = map (style_elem hs) svg"

text \<open>\<open>svg.select(".y-axis").remove()\<close> removes the first element of that class.\<close>

fun remove_first :: "string \<Rightarrow> 'p elem list \<Rightarrow> 'p elem list" where
  "remove_first c [] = []"
| "remove_first c (e # es) = (if has_class c e then es else e # remove_first c es)"

subsection \<open>The marks\<close>

definition clear_marks :: "'p elem list \<Rightarrow> 'p elem list" where
  "clear_marks svg = filter (\<lambda>e. \<not> (has_class ''dot'' e \<or> has_class ''line'' e)) svg"

text \<open>The line and the circle that \<open>append\<close> and the \<open>attr\<close> calls make for one entry.\<close>

definition line_el :: "(date option \<Rightarrow> 'p) \<Rightarrow> (string \<Rightarrow> 'p) \<Rightarrow> entry \<Rightarrow> 'p elem" where
  "line_el x yc d =
     LineEl [''line''] (x (recommended_mail_date d)) (x (ballot_receipt_deadline d))
       (yc (state d)) (yc (state d)) ''gray''"

definition dot_el ::
  "(date option \<Rightarrow> 'p) \<Rightarrow> (string \<Rightarrow> 'p) \<Rightarrow> (entry \<Rightarrow> date option) \<Rightarrow> string \<Rightarrow> entry \<Rightarrow> 'p elem" where
  "dot_el x yc field fill d = CircleEl [''dot''] (x (field d)) (yc (state d)) 6 fill"

definition draw_lines ::
  "(date option \<Rightarrow> 'p) \<Rightarrow> (string \<Rightarrow> 'p) \<Rightarrow> entry list \<Rightarrow> 'p elem list \<Rightarrow> 'p elem list" where
  "draw_lines x yc filteredData svg =
     svg @ map (line_el x yc)
             (enter (selectAll ''line'' svg)
                (filter (\<lambda>d. recommended_mail_date d \<noteq> None \<and> ballot_receipt_deadline d \<noteq> None)
                   filteredData))"

definition draw_mail_dots ::
  "(date option \<Rightarrow> 'p) \<Rightarrow> (string \<Rightarrow> 'p) \<Rightarrow> entry list \<Rightarrow> 'p elem list \<Rightarrow> 'p elem list" where
  "draw_mail_dots x yc filteredData svg =
     svg @ map (dot_el x yc recommended_mail_date ''#FF6F61'')
             (enter (selectAll ''dot-mail'' svg)
                (filter (\<lambda>d. recommended_mail_date d \<noteq> None) filteredData))"

definition draw_postmark_dots ::
  "(date option \<Rightarrow> 'p) \<Rightarrow> (string \<Rightarrow> 'p) \<Rightarrow> entry list \<Rightarrow> 'p elem list \<Rightarrow> 'p elem list" where
  "draw_postmark_dots x yc filteredData svg =
     svg @ map (dot_el x yc ballot_postmark_deadline ''#2171B5'')
             (enter (selectAll ''dot-postmark'' svg)
                (filter (\<lambda>d. ballot_postmark_deadline d \<noteq> None) filteredData))"

definition draw_receipt_dots ::
  "(date option \<Rightarrow> 'p) \<Rightarrow> (string \<Rightarrow> 'p) \<Rightarrow> entry list \<Rightarrow> 'p elem list \<Rightarrow> 'p elem list" where
  "draw_receipt_dots x yc filteredData svg =
     svg @ map (dot_el x yc ballot_receipt_deadline ''#EF61F7'')
             (enter (selectAll ''dot-receipt'' svg)
                (filter (\<lambda>d. ballot_receipt_deadline d \<noteq> None) filteredData))"

definition updateChart ::
  "(date option \<Rightarrow> 'p) \<Rightarrow> (string \<Rightarrow> 'p) \<Rightarrow> entry list \<Rightarrow> 'p elem list \<Rightarrow> 'p elem list" where
  "updateChart x yc filteredData svg =
     draw_receipt_dots x yc filteredData
       (draw_postmark_dots x yc filteredData
          (draw_mail_dots x yc filteredData
             (draw_lines x yc filteredData (clear_marks svg))))"

subsection \<open>The page and the filter\<close>

record 'p page =
  filters :: filter_state
  data :: "entry list"
  x_scale :: time_scale
  y_scale :: band_scale
  svg :: "'p elem list"

text \<open>The predicate of \<open>data.filter\<close> in \<open>applyFilters\<close>.\<close>

definition keep :: "filter_state \<Rightarrow> entry \<Rightarrow> bool" where
  "keep f d =
     (if all f then True
      else if post f then return_methods d = ''Post''
      else if postElectronic f then return_methods d = ''Post, Electronic''
      else False)"

definition filteredData :: "filter_state \<Rightarrow> entry list \<Rightarrow> entry list" where
  "filteredData f xs = filter (keep f) xs"

text \<open>\<open>new Set(...)\<close> keeps the first occurrence of every value as well.\<close>

definition filteredStates :: "filter_state \<Rightarrow> entry list \<Rightarrow> string list" where
  "filteredStates f xs = band_domain (map state (filteredData f xs))"

definition applyFilters ::
  "(time_scale \<Rightarrow> date option \<Rightarrow> 'p) \<Rightarrow> (band_scale \<Rightarrow> string \<Rightarrow> 'p) \<Rightarrow> 'p page \<Rightarrow> 'p page" where
  "applyFilters xpos ycenter p =
     (let fd = filteredData (filters p) (data p);
          svg1 = remove_first ''y-axis'' (svg p);
          y' = (y_scale p) \<lparr> b_domain := band_domain (filteredStates (filters p) (data p)) \<rparr>;
          svg2 = renderYAxis y' svg1;
          svg3 = styleHighlightedStatesYAxis svg2 highlightedStates;
          svg4 = updateChart (xpos (x_scale p)) (ycenter y') fd svg3
      in p \<lparr> y_scale := y', svg := svg4 \<rparr>)"

subsection \<open>The legend\<close>

record legend_entry =
  legend_label :: string
  color :: string

definition legendData :: "legend_entry list" where
  "legendData =
     [\<lparr> legend_label = ''Recommended Mail Date'', color = ''#FF5733'' \<rparr>,
      \<lparr> legend_label = ''Ballot Postmark Deadline'', color = ''#3F78E7'' \<rparr>,
      \<lparr> legend_label = ''Ballot Receipt Deadline'', color = ''#EF61F7'' \<rparr>]"

text \<open>The circles of the legend: \<open>cx\<close>, \<open>cy\<close>, \<open>r\<close> and the fill of each.\<close>

definition legend_circles :: "(int \<times> int \<times> int \<times> string) list" where
  "legend_circles =
     map (\<lambda>(i, d). (int i * 200, 0, 6, color d)) (enumerate 0 legendData)"

subsection \<open>Loading and the event handlers\<close>

text \<open>
  The callback that runs once the table is loaded, up to and with the first call of
  \<open>applyFilters\<close>. The x axis, its caption and the legend are elements without marks.
\<close>

definition loaded ::
  "(time_scale \<Rightarrow> date option \<Rightarrow> 'p) \<Rightarrow> (band_scale \<Rightarrow> string \<Rightarrow> 'p) \<Rightarrow> entry list \<Rightarrow> 'p page" where
  "loaded xpos ycenter rows =
     (let xs = sort_data rows;
          y = y_scale_of xs;
          svg1 = [OtherEl ''g'' [], OtherEl ''text'' [''chart-axis-label'']];
          svg2 = renderYAxis y svg1;
          svg3 = styleHighlightedStatesYAxis svg2 highlightedStates;
          svg4 = svg3 @ [OtherEl ''g'' [''legend'']]
      in applyFilters xpos ycenter
           \<lparr> filters = filters_init, data = xs, x_scale = x_scale_of xs, y_scale = y,
             svg = svg4 \<rparr>)"

definition load ::
  "(time_scale \<Rightarrow> date option \<Rightarrow> 'p) \<Rightarrow> (band_scale \<Rightarrow> string \<Rightarrow> 'p) \<Rightarrow> raw_row list \<Rightarrow> 'p page" where
  "load xpos ycenter rows = loaded xpos ycenter (map row_accessor rows)"

text \<open>
  The three listeners. \<open>checked\<close> is \<open>this.checked\<close> of the input that fired the event.
\<close>

datatype input = InPost | InPostElectronic | InAll

fun set_filters :: "input \<Rightarrow> bool \<Rightarrow> filter_state \<Rightarrow> filter_state" where
  "set_filters InPost checked f =
     (if checked then f \<lparr> all := False, post := True, postElectronic := False \<rparr> else f)"
| "set_filters InPostElectronic checked f =
     (if checked then f \<lparr> all := False, post := False, postElectronic := True \<rparr> else f)"
| "set_filters InAll checked f =
     (if checked then f \<lparr> all := True, post := False, postElectronic := False \<rparr> else f)"

definition on_change ::
  "(time_scale \<Rightarrow> date option \<Rightarrow> 'p) \<Rightarrow> (band_scale \<Rightarrow> string \<Rightarrow> 'p) \<Rightarrow>
   input \<Rightarrow> bool \<Rightarrow> 'p page \<Rightarrow> 'p page" where
  "on_change xpos ycenter i checked p =
     applyFilters xpos ycenter (p \<lparr> filters := set_filters i checked (filters p) \<rparr>)"

text \<open>The filter states the program can be in: the initial one, and what the listeners make of one.\<close>

inductive reachable_filters :: "filter_state \<Rightarrow> bool" where
  init: "reachable_filters filters_init"
| step: "reachable_filters f \<Longrightarrow> reachable_filters (set_filters i checked f)"

definition exactly_one :: "filter_state \<Rightarrow> bool" where
  "exactly_one f =
     ((all f \<and> \<not> post f \<and> \<not> postElectronic f) \<or>
      (\<not> all f \<and> post f \<and> \<not> postElectronic f) \<or>
      (\<not> all f \<and> \<not> post f \<and> postElectronic f))"

text \<open>An entry without dates, for the examples.\<close>

definition sample_entry :: "string \<Rightarrow> string \<Rightarrow> entry" where
  "sample_entry s m =
     \<lparr> state = s, recommended_mail_date = None, ballot_postmark_deadline = None,
       ballot_receipt_deadline = None, return_methods = m \<rparr>"

subsection \<open>Orderings and examples used in the statements\<close>

text \<open>
  \<open>in_order a b\<close>: \<open>a\<close> may stand before \<open>b\<close> in a list sorted by recommended mail date with
  the rows without one last.
\<close>

definition in_order :: "entry \<Rightarrow> entry \<Rightarrow> bool" where
  "in_order a b =
     (case recommended_mail_date b of
        None \<Rightarrow> True
      | Some db \<Rightarrow>
          (case recommended_mail_date a of None \<Rightarrow> False | Some da \<Rightarrow> da \<le> db))"

text \<open>An entry with a recommended mail date only, for the examples.\<close>

definition dated :: "string \<Rightarrow> date option \<Rightarrow> entry" where
  "dated s t =
     \<lparr> state = s, recommended_mail_date = t, ballot_postmark_deadline = None,
       ballot_receipt_deadline = None, return_methods = ''Post'' \<rparr>"

text \<open>The recommended mail dates and the receipt deadlines that occur in a list of entries.\<close>

definition mail_dates :: "entry list \<Rightarrow> date set" where
  "mail_dates xs = set (List.map_filter recommended_mail_date xs)"

definition receipt_dates :: "entry list \<Rightarrow> date set" where
  "receipt_dates xs = set (List.map_filter ballot_receipt_deadline xs)"

text \<open>An entry given by its state and its three dates, for the examples.\<close>

definition deadlines :: "string \<Rightarrow> date option \<Rightarrow> date option \<Rightarrow> date option \<Rightarrow> entry" where
  "deadlines s m p r =
     \<lparr> state = s, recommended_mail_date = m, ballot_postmark_deadline = p,
       ballot_receipt_deadline = r, return_methods = ''Post'' \<rparr>"

text \<open>A raw row, for the examples.\<close>

definition sample_row :: "string \<Rightarrow> string \<Rightarrow> string \<Rightarrow> raw_row" where
  "sample_row m p r =
     \<lparr> col_State = ''Ohio'', col_Recommended_Mail_Date = m, col_Ballot_Postmark_Deadline = p,
       col_Ballot_Receipt_Deadline = r, col_Return_Methods = ''Post'' \<rparr>"

text \<open>The fill of a circle.\<close>

fun fill_of :: "'p elem \<Rightarrow> string option" where
  "fill_of (CircleEl cs cx cy r fill) = Some fill"
| "fill_of (LineEl cs x1 x2 y1 y2 stroke) = None"
| "fill_of (AxisG cs ts) = None"
| "fill_of (OtherEl tag cs) = None"

subsection \<open>The marks an entry is expected to contribute\<close>

text \<open>
  Stated after the description of the mark renderer: an entry with both a recommended
  mail date and a receipt deadline has one line between the images of the two dates, at
  the centre of its band; every date it has gives one dot of radius 6 at the image of that
  date, at the centre of its band.
\<close>

definition expected_line :: "(date option \<Rightarrow> 'p) \<Rightarrow> (string \<Rightarrow> 'p) \<Rightarrow> entry \<Rightarrow> 'p elem list" where
  "expected_line x yc d =
     (case (recommended_mail_date d, ballot_receipt_deadline d) of
        (Some m, Some r) \<Rightarrow>
          [LineEl [''line''] (x (Some m)) (x (Some r)) (yc (state d)) (yc (state d)) ''gray'']
      | _ \<Rightarrow> [])"

definition expected_dot :: "(date option \<Rightarrow> 'p) \<Rightarrow> (string \<Rightarrow> 'p) \<Rightarrow> entry \<Rightarrow> date option \<Rightarrow> string \<Rightarrow> 'p elem list" where
  "expected_dot x yc d v fill =
     (case v of Some t \<Rightarrow> [CircleEl [''dot''] (x (Some t)) (yc (state d)) 6 fill] | None \<Rightarrow> [])"

definition expected_dots :: "(date option \<Rightarrow> 'p) \<Rightarrow> (string \<Rightarrow> 'p) \<Rightarrow> entry \<Rightarrow> 'p elem list" where
  "expected_dots x yc d =
     expected_dot x yc d (recommended_mail_date d) ''#FF6F61''
     @ expected_dot x yc d (ballot_postmark_deadline d) ''#2171B5''
     @ expected_dot x yc d (ballot_receipt_deadline d) ''#EF61F7''"

text \<open>How many of the three dates of an entry are not \<open>null\<close>.\<close>

definition count_dates :: "entry \<Rightarrow> nat" where
  "count_dates d =
     length (filter (\<lambda>v. v \<noteq> None)
       [recommended_mail_date d, ballot_postmark_deadline d, ballot_receipt_deadline d])"

text \<open>
  No element carries one of the three classes that \<open>updateChart\<close> selects the dot series
  by. The script gives these classes to no element.
\<close>

definition no_series :: "'p elem list \<Rightarrow> bool" where
  "no_series nodes =
     list_all (\<lambda>e. \<not> has_class ''dot-mail'' e \<and> \<not> has_class ''dot-postmark'' e
                  \<and> \<not> has_class ''dot-receipt'' e) nodes"

text \<open>Two scale functions and a chart with marks of an earlier drawing, for the examples.\<close>

definition sample_x :: "date option \<Rightarrow> int" where
  "sample_x v = (case v of Some t \<Rightarrow> t | None \<Rightarrow> 0)"

definition sample_yc :: "string \<Rightarrow> int" where
  "sample_yc s = int (length s)"

definition stale_nodes :: "int elem list" where
  "stale_nodes =
     [OtherEl ''g'' [''legend''], LineEl [''line''] 1 2 3 3 ''gray'',
      CircleEl [''dot''] 5 5 6 ''#FF6F61'']"

subsection \<open>The tick labels of the y axis\<close>

text \<open>The tick labels that the selector \<open>.y-axis .tick text\<close> reaches.\<close>

fun axis_ticks :: "'p elem \<Rightarrow> tick list" where
  "axis_ticks (AxisG cs ts) = (if ''y-axis'' \<in> set cs then ts else [])"
| "axis_ticks (LineEl cs x1 x2 y1 y2 stroke) = []"
| "axis_ticks (CircleEl cs cx cy r fill) = []"
| "axis_ticks (OtherEl tag cs) = []"

definition y_ticks :: "'p elem list \<Rightarrow> tick list" where
  "y_ticks nodes = concat (map axis_ticks nodes)"

text \<open>
  A tick label is classified: it carries \<open>highlighted-tick\<close> exactly when its state is one
  of the highlighted states, and \<open>normal-tick\<close> exactly when it is not.
\<close>

definition tick_classified :: "tick \<Rightarrow> bool" where
  "tick_classified t =
     (((''highlighted-tick'' \<in> set (tclasses t)) = (datum t \<in> set highlightedStates))
      \<and> ((''normal-tick'' \<in> set (tclasses t)) = (datum t \<notin> set highlightedStates)))"

text \<open>The tick label of a state with its one class.\<close>

definition classified_tick :: "string \<Rightarrow> tick" where
  "classified_tick s =
     \<lparr> datum = s, label = s,
       tclasses = [if s \<in> set highlightedStates then ''highlighted-tick'' else ''normal-tick''] \<rparr>"

text \<open>Three entries and a page that shows them, for the examples.\<close>

definition sample_data :: "entry list" where
  "sample_data =
     [(deadlines ''Wisconsin'' (Some 10) None (Some 30)) \<lparr> return_methods := ''Post'' \<rparr>,
      (deadlines ''Texas'' (Some 12) None (Some 28)) \<lparr> return_methods := ''Post, Electronic'' \<rparr>,
      (deadlines ''Ohio'' None None (Some 29)) \<lparr> return_methods := ''Post'' \<rparr>]"

definition sample_page :: "filter_state \<Rightarrow> int page" where
  "sample_page f =
     \<lparr> filters = f, data = sample_data, x_scale = x_scale_of sample_data,
       y_scale = y_scale_of sample_data,
       svg = [OtherEl ''g'' [], AxisG [''y-axis''] (map classified_tick (map state sample_data))] \<rparr>"

subsection \<open>Shapes of date cells\<close>

text \<open>
  A field of at most \<open>k\<close> characters: optional white space, then one or more digits and
  nothing else.
\<close>

definition lenient_field :: "nat \<Rightarrow> string \<Rightarrow> bool" where
  "lenient_field k f =
     (length f \<le> k \<and> dropWhile is_space f \<noteq> [] \<and> list_all is_digit (dropWhile is_space f))"

text \<open>The shape of a cell: three such fields, of at most 2, 2 and 4 characters, with a slash between them.\<close>

definition lenient_mdY :: "string \<Rightarrow> bool" where
  "lenient_mdY s =
     (\<exists>a b c. s = a @ ''/'' @ b @ ''/'' @ c
        \<and> lenient_field 2 a \<and> lenient_field 2 b \<and> lenient_field 4 c)"

text \<open>
  Stated after the description of the input file: a date in \<open>MM/DD/YYYY\<close> format, that is
  two digits, a slash, two digits, a slash and four digits that name a month from 1 to 12
  and a day of that month.
\<close>

definition days_in_month :: "int \<Rightarrow> int \<Rightarrow> int" where
  "days_in_month y m =
     (if m = 2 then (if y mod 4 = 0 \<and> (y mod 100 \<noteq> 0 \<or> y mod 400 = 0) then 29 else 28)
      else if m \<in> {4, 6, 9, 11} then 30 else 31)"

definition is_mdY_date :: "string \<Rightarrow> bool" where
  "is_mdY_date s =
     (length s = 10 \<and> s ! 2 = CHR ''/'' \<and> s ! 5 = CHR ''/''
      \<and> list_all is_digit (take 2 s @ take 2 (drop 3 s) @ drop 6 s)
      \<and> 1 \<le> number_value (take 2 s) \<and> number_value (take 2 s) \<le> 12
      \<and> 1 \<le> number_value (take 2 (drop 3 s))
      \<and> number_value (take 2 (drop 3 s))
           \<le> days_in_month (number_value (drop 6 s)) (number_value (take 2 s)))"

section \<open>The filter\<close>

text \<open>
  C1. For every filter state and every list of entries, the subset that \<open>applyFilters\<close>
  computes follows a fixed priority: with \<open>all\<close> set it is the whole list; otherwise with
  \<open>post\<close> set it is exactly the entries whose return methods are the string \<open>Post\<close>;
  otherwise with \<open>postElectronic\<close> set it is exactly the entries whose return methods are
  the string \<open>Post, Electronic\<close>; otherwise it is empty. The comparison is equality of
  strings.
\<close>

theorem filter_priority:
  "filteredData f xs =
     (if all f then xs
      else if post f then filter (\<lambda>d. return_methods d = ''Post'') xs
      else if postElectronic f then filter (\<lambda>d. return_methods d = ''Post, Electronic'') xs
      else [])"
  by (simp add: filteredData_def keep_def [abs_def])

theorem filter_priority_witness:
  "filteredData \<lparr> all = False, post = True, postElectronic = True \<rparr>
     [sample_entry ''Ohio'' ''Post'', sample_entry ''Iowa'' ''post'',
      sample_entry ''Utah'' '' Post'', sample_entry ''Texas'' ''Post, Electronic'',
      sample_entry ''Maine'' ''Postal'']
   = [sample_entry ''Ohio'' ''Post'']
   \<and> filteredData \<lparr> all = False, post = False, postElectronic = True \<rparr>
     [sample_entry ''Ohio'' ''Post'', sample_entry ''Texas'' ''Post, Electronic'',
      sample_entry ''Utah'' ''Post,Electronic'']
   = [sample_entry ''Texas'' ''Post, Electronic'']
   \<and> filteredData \<lparr> all = True, post = True, postElectronic = False \<rparr>
     [sample_entry ''Ohio'' ''Post'', sample_entry ''Texas'' ''Fax'']
   = [sample_entry ''Ohio'' ''Post'', sample_entry ''Texas'' ''Fax'']
   \<and> filteredData \<lparr> all = False, post = False, postElectronic = False \<rparr>
     [sample_entry ''Ohio'' ''Post'', sample_entry ''Texas'' ''Fax''] = []"
  using filter_priority [of "\<lparr> all = False, post = True, postElectronic = True \<rparr>"
      "[sample_entry ''Ohio'' ''Post'', sample_entry ''Iowa'' ''post'',
      sample_entry ''Utah'' '' Post'', sample_entry ''Texas'' ''Post, Electronic'',
      sample_entry ''Maine'' ''Postal'']"]
    filter_priority [of "\<lparr> all = False, post = False, postElectronic = True \<rparr>"
      "[sample_entry ''Ohio'' ''Post'', sample_entry ''Texas'' ''Post, Electronic'',
      sample_entry ''Utah'' ''Post,Electronic'']"]
    filter_priority [of "\<lparr> all = True, post = True, postElectronic = False \<rparr>"
      "[sample_entry ''Ohio'' ''Post'', sample_entry ''Texas'' ''Fax'']"]
    filter_priority [of "\<lparr> all = False, post = False, postElectronic = False \<rparr>"
      "[sample_entry ''Ohio'' ''Post'', sample_entry ''Texas'' ''Fax'']"]
  by (simp add: sample_entry_def)

section \<open>The filter state\<close>

text \<open>
  The variable \<open>filters\<close> starts with all three flags true, so "exactly one flag is true"
  does not hold from the start.
\<close>

theorem initial_filters_not_exclusive: "\<not> exactly_one filters_init"
  by (simp add: exactly_one_def filters_init_def)

lemma set_filters_checked: "exactly_one (set_filters i True f)"
  by (cases i) (simp_all add: exactly_one_def)

lemma set_filters_unchecked: "set_filters i False f = f"
  by (cases i) simp_all

lemma set_filters_preserves: "exactly_one f \<Longrightarrow> exactly_one (set_filters i c f)"
  by (cases c) (simp_all add: set_filters_checked set_filters_unchecked)

lemma reachable_filters_shape: "reachable_filters f \<Longrightarrow> f = filters_init \<or> exactly_one f"
proof (induction rule: reachable_filters.induct)
  case init
  show ?case by simp
next
  case (step f i checked)
  show ?case
  proof (cases checked)
    case True
    then show ?thesis by (simp add: set_filters_checked)
  next
    case False
    with step.IH show ?thesis by (simp add: set_filters_unchecked)
  qed
qed

text \<open>
  C2, as the script has it. The filter state starts with all three flags true, and the
  filter then keeps every entry. A listener whose input is checked sets its own flag and
  clears the other two; a listener whose input is not checked leaves the state as it is.
  So every listener preserves "exactly one flag is true", and every state the program
  reaches is the initial one or has exactly one flag true.
\<close>

theorem filters_invariant:
  "filters_init = \<lparr> all = True, post = True, postElectronic = True \<rparr>
   \<and> filteredData filters_init xs = xs
   \<and> set_filters InPost True f = \<lparr> all = False, post = True, postElectronic = False \<rparr>
   \<and> set_filters InPostElectronic True f = \<lparr> all = False, post = False, postElectronic = True \<rparr>
   \<and> set_filters InAll True f = \<lparr> all = True, post = False, postElectronic = False \<rparr>
   \<and> set_filters i False f = f
   \<and> (exactly_one f \<longrightarrow> exactly_one (set_filters i c f))
   \<and> (reachable_filters f \<longrightarrow> f = filters_init \<or> exactly_one f)"
  by (simp add: filters_init_def filteredData_def keep_def [abs_def] set_filters_unchecked
      set_filters_preserves reachable_filters_shape [unfolded filters_init_def])

theorem filters_invariant_witness:
  "exactly_one (set_filters InPost True filters_init)
   \<and> exactly_one (set_filters InAll False (set_filters InPost True filters_init))
   \<and> reachable_filters (set_filters InAll False (set_filters InPost True filters_init))
   \<and> set_filters InAll False (set_filters InPost True filters_init) \<noteq> filters_init"
proof -
  let ?f = "set_filters InPost True filters_init"
  have r: "reachable_filters (set_filters InAll False ?f)"
    by (intro reachable_filters.intros)
  have e: "exactly_one ?f" by (simp add: exactly_one_def)
  from filters_invariant [of "[]" ?f InAll False] e
  have "exactly_one (set_filters InAll False ?f)" by blast
  moreover have "set_filters InAll False ?f \<noteq> filters_init"
    by (simp add: filters_init_def)
  ultimately show ?thesis using r e by blast
qed

section \<open>The sort of the loader\<close>

lemma mset_insert_by: "mset (insert_by cmp x ys) = add_mset x (mset ys)"
  by (induction ys) auto

lemma set_insert_by: "set (insert_by cmp x ys) = insert x (set ys)"
  by (induction ys) auto

lemma mset_foldl_insert_by:
  "mset (foldl (\<lambda>acc x. insert_by cmp x acc) acc xs) = mset acc + mset xs"
  by (induction xs arbitrary: acc) (auto simp: mset_insert_by)

lemma mset_array_sort: "mset (array_sort cmp xs) = mset xs"
  by (simp add: array_sort_def mset_foldl_insert_by)

lemma in_order_iff:
  "in_order a b =
     ((recommended_mail_date a = None \<longrightarrow> recommended_mail_date b = None)
      \<and> (\<forall>x y. recommended_mail_date a = Some x \<and> recommended_mail_date b = Some y \<longrightarrow> x \<le> y))"
  by (auto simp: in_order_def split: option.splits)

lemma in_order_trans: "in_order a b \<Longrightarrow> in_order b c \<Longrightarrow> in_order a c"
  by (auto simp: in_order_def split: option.splits)

lemma compare_less: "sort_compare x y < 0 \<Longrightarrow> in_order x y"
  by (auto simp: sort_compare_def in_order_def d3_ascending_def split: option.splits if_splits)

lemma compare_not_less: "\<not> sort_compare x y < 0 \<Longrightarrow> in_order y x"
  by (auto simp: sort_compare_def in_order_def d3_ascending_def split: option.splits if_splits)

lemma sorted_insert_by:
  "sorted_wrt in_order ys \<Longrightarrow> sorted_wrt in_order (insert_by sort_compare x ys)"
proof (induction ys)
  case Nil
  show ?case by simp
next
  case (Cons y ys)
  show ?case
  proof (cases "sort_compare x y < 0")
    case True
    then have xy: "in_order x y" by (rule compare_less)
    have "in_order x z" if "z \<in> set ys" for z
      using Cons.prems that xy in_order_trans by auto
    with True xy Cons.prems show ?thesis by simp
  next
    case False
    then have "in_order y x" by (rule compare_not_less)
    with False Cons show ?thesis by (auto simp: set_insert_by)
  qed
qed

lemma sorted_foldl_insert_by:
  "sorted_wrt in_order acc \<Longrightarrow>
   sorted_wrt in_order (foldl (\<lambda>acc x. insert_by sort_compare x acc) acc xs)"
  by (induction xs arbitrary: acc) (auto simp: sorted_insert_by)

text \<open>
  The same order follows for every arrangement that respects the comparator the way a
  sort has to: no element stands behind one that the comparator puts strictly after it.
\<close>

lemma respecting_compare_in_order:
  assumes "\<forall>i j. i < length ys \<and> j < length ys \<and> sort_compare (ys ! i) (ys ! j) < 0 \<longrightarrow> i < j"
  shows "sorted_wrt in_order ys"
proof -
  have "in_order (ys ! i) (ys ! j)" if "i < j" "j < length ys" for i j
  proof (rule ccontr)
    assume "\<not> in_order (ys ! i) (ys ! j)"
    then have "sort_compare (ys ! j) (ys ! i) < 0"
      using compare_not_less by blast
    with assms that have "j < i" by simp
    with that show False by simp
  qed
  then show ?thesis by (simp add: sorted_wrt_iff_nth_less)
qed

text \<open>
  C3. For every list of entries, the sort of the loader yields a permutation of the list in
  which every entry with a recommended mail date stands before every entry without one,
  and any two entries with a date stand in ascending order of their dates. (The dates
  null, 2024-10-01, null, 2024-09-15 are sorted in the example that follows the theorem.)
\<close>

theorem sort_nulls_last_ascending:
  "data (loaded xpos ycenter xs) = sort_data xs
   \<and> mset (sort_data xs) = mset xs
   \<and> sorted_wrt in_order (sort_data xs)
   \<and> (\<forall>i j. i < j \<and> j < length (sort_data xs) \<longrightarrow>
         (recommended_mail_date (sort_data xs ! i) = None \<longrightarrow>
            recommended_mail_date (sort_data xs ! j) = None)
         \<and> (\<forall>a b. recommended_mail_date (sort_data xs ! i) = Some a
               \<and> recommended_mail_date (sort_data xs ! j) = Some b \<longrightarrow> a \<le> b))"
proof -
  have s: "sorted_wrt in_order (sort_data xs)"
    by (simp add: sort_data_def array_sort_def sorted_foldl_insert_by)
  have m: "mset (sort_data xs) = mset xs"
    by (simp add: sort_data_def mset_array_sort)
  have d: "data (loaded xpos ycenter xs) = sort_data xs"
    by (simp add: loaded_def Let_def applyFilters_def)
  have "(recommended_mail_date (sort_data xs ! i) = None \<longrightarrow>
            recommended_mail_date (sort_data xs ! j) = None)
         \<and> (\<forall>a b. recommended_mail_date (sort_data xs ! i) = Some a
               \<and> recommended_mail_date (sort_data xs ! j) = Some b \<longrightarrow> a \<le> b)"
    if "i < j \<and> j < length (sort_data xs)" for i j
  proof -
    from s that have "in_order (sort_data xs ! i) (sort_data xs ! j)"
      by (simp add: sorted_wrt_iff_nth_less)
    then show ?thesis by (simp add: in_order_iff)
  qed
  with s m d show ?thesis by blast
qed

theorem sort_nulls_last_ascending_witness:
  "map recommended_mail_date
     (sort_data [dated ''A'' None, dated ''B'' (Some (date_of_ymd 2024 10 1)),
                 dated ''C'' None, dated ''D'' (Some (date_of_ymd 2024 9 15))])
   = [Some (date_of_ymd 2024 9 15), Some (date_of_ymd 2024 10 1), None, None]
   \<and> sorted_wrt in_order
       (sort_data [dated ''A'' None, dated ''B'' (Some (date_of_ymd 2024 10 1)),
                 dated ''C'' None, dated ''D'' (Some (date_of_ymd 2024 9 15))])"
  using sort_nulls_last_ascending [of "\<lambda>ts. sample_x" "\<lambda>bs. sample_yc" "[dated ''A'' None, dated ''B'' (Some (date_of_ymd 2024 10 1)),
                 dated ''C'' None, dated ''D'' (Some (date_of_ymd 2024 9 15))]"]
  by (simp add: sort_data_def array_sort_def sort_compare_def d3_ascending_def dated_def
      date_of_ymd_def)

section \<open>The domain of the time scale\<close>

lemma mail_dates_char:
  "mail_dates xs = {t. \<exists>d \<in> set xs. recommended_mail_date d = Some t}"
  by (force simp: mail_dates_def map_filter_def)

lemma receipt_dates_char:
  "receipt_dates xs = {t. \<exists>d \<in> set xs. ballot_receipt_deadline d = Some t}"
  by (force simp: receipt_dates_def map_filter_def)

lemma finite_mail_dates: "finite (mail_dates xs)"
  by (simp add: mail_dates_def)

lemma finite_receipt_dates: "finite (receipt_dates xs)"
  by (simp add: receipt_dates_def)

lemma mail_dates_Nil: "mail_dates [] = {}"
  by (simp add: mail_dates_char)

lemma mail_dates_snoc:
  "mail_dates (xs @ [x]) =
     (case recommended_mail_date x of None \<Rightarrow> mail_dates xs | Some t \<Rightarrow> insert t (mail_dates xs))"
  by (auto simp: mail_dates_char split: option.splits)

lemma receipt_dates_snoc:
  "receipt_dates (xs @ [x]) =
     (case ballot_receipt_deadline x of None \<Rightarrow> receipt_dates xs | Some t \<Rightarrow> insert t (receipt_dates xs))"
  by (auto simp: receipt_dates_char split: option.splits)

lemma minDate_snoc: "minDate (xs @ [x]) = min_step (minDate xs) (mail_or_infinity x)"
  by (simp add: minDate_def)

lemma endDate_snoc: "endDate (xs @ [x]) = max_step (endDate xs) (ballot_receipt_deadline x)"
  by (simp add: endDate_def)

lemma minDate_eq:
  "minDate xs =
     (if xs = [] then None
      else if mail_dates xs = {} then Some TInfinity
      else Some (TDate (Min (mail_dates xs))))"
proof (induction xs rule: rev_induct)
  case Nil
  show ?case by (simp add: minDate_def)
next
  case (snoc x xs)
  show ?case
  proof (cases "recommended_mail_date x")
    case None
    then show ?thesis
      using snoc.IH
      by (simp add: minDate_snoc mail_dates_snoc mail_dates_Nil min_step_def mail_or_infinity_def)
  next
    case (Some t)
    show ?thesis
    proof (cases "mail_dates xs = {}")
      case True
      with Some snoc.IH show ?thesis
        by (simp add: minDate_snoc mail_dates_snoc min_step_def mail_or_infinity_def)
    next
      case False
      then have ne: "xs \<noteq> []" by (auto simp: mail_dates_char)
      have "Min (insert t (mail_dates xs)) = min t (Min (mail_dates xs))"
        using False by (simp add: finite_mail_dates)
      with Some False ne snoc.IH show ?thesis
        by (simp add: minDate_snoc mail_dates_snoc min_step_def mail_or_infinity_def min_def)
    qed
  qed
qed

lemma endDate_eq:
  "endDate xs = (if receipt_dates xs = {} then None else Some (Max (receipt_dates xs)))"
proof (induction xs rule: rev_induct)
  case Nil
  show ?case by (simp add: endDate_def receipt_dates_char)
next
  case (snoc x xs)
  show ?case
  proof (cases "ballot_receipt_deadline x")
    case None
    then show ?thesis
      using snoc.IH by (simp add: endDate_snoc receipt_dates_snoc max_step_def)
  next
    case (Some t)
    show ?thesis
    proof (cases "receipt_dates xs = {}")
      case True
      with Some snoc.IH show ?thesis
        by (simp add: endDate_snoc receipt_dates_snoc max_step_def)
    next
      case False
      have "Max (insert t (receipt_dates xs)) = max t (Max (receipt_dates xs))"
        using False by (simp add: finite_receipt_dates)
      with Some False snoc.IH show ?thesis
        by (simp add: endDate_snoc receipt_dates_snoc max_step_def max_def)
    qed
  qed
qed

lemma applyFilters_x_scale: "x_scale (applyFilters xpos ycenter p) = x_scale p"
  by (simp add: applyFilters_def Let_def)

lemma applyFilters_data: "data (applyFilters xpos ycenter p) = data p"
  by (simp add: applyFilters_def Let_def)

lemma loaded_x_scale: "x_scale (loaded xpos ycenter rows) = x_scale_of (sort_data rows)"
  by (simp add: loaded_def Let_def applyFilters_x_scale)

lemma set_sort_data: "set (sort_data xs) = set xs"
proof -
  have "mset (sort_data xs) = mset xs"
    by (simp add: sort_data_def mset_array_sort)
  then show ?thesis by (rule mset_eq_setD)
qed

text \<open>
  C4. For every list of loaded entries with at least one recommended mail date and at least
  one receipt deadline, the time scale's domain is the least recommended mail date minus
  ten days and the greatest receipt deadline. (In the example that follows the
  theorem, the mail dates 2024-09-10 and 2024-09-20 and a greatest receipt deadline
  2024-11-05 give the domain from 2024-08-31 to 2024-11-05.)
\<close>

theorem time_axis_domain:
  assumes "\<exists>d \<in> set rows. recommended_mail_date d \<noteq> None"
    and "\<exists>d \<in> set rows. ballot_receipt_deadline d \<noteq> None"
  shows "startDate rows = Some (Min (mail_dates rows) - 10)
    \<and> endDate rows = Some (Max (receipt_dates rows))
    \<and> t_domain (x_scale (loaded xpos ycenter rows)) =
        (Some (Min (mail_dates rows) - 10), Some (Max (receipt_dates rows)))"
proof -
  have m: "mail_dates rows \<noteq> {}" using assms(1) by (auto simp: mail_dates_char)
  have r: "receipt_dates rows \<noteq> {}" using assms(2) by (auto simp: receipt_dates_char)
  have ne: "rows \<noteq> []" using assms(1) by auto
  have s: "startDate rows = Some (Min (mail_dates rows) - 10)"
    using m ne by (simp add: startDate_def minDate_eq)
  have e: "endDate rows = Some (Max (receipt_dates rows))"
    using r by (simp add: endDate_eq)
  have sm: "mail_dates (sort_data rows) = mail_dates rows"
    by (simp add: mail_dates_char set_sort_data)
  have sr: "receipt_dates (sort_data rows) = receipt_dates rows"
    by (simp add: receipt_dates_char set_sort_data)
  have ne': "sort_data rows \<noteq> []"
    using ne set_sort_data [of rows] by auto
  have "t_domain (x_scale (loaded xpos ycenter rows)) =
        (Some (Min (mail_dates rows) - 10), Some (Max (receipt_dates rows)))"
    using m r ne'
    by (simp add: loaded_x_scale x_scale_of_def startDate_def minDate_eq endDate_eq sm sr)
  with s e show ?thesis by simp
qed

theorem time_axis_domain_witness:
  "(\<exists>d \<in> set [deadlines ''Ohio'' (Some (date_of_ymd 2024 9 20)) None (Some (date_of_ymd 2024 11 5)),
                  deadlines ''Utah'' (Some (date_of_ymd 2024 9 10)) None (Some (date_of_ymd 2024 11 1)),
                  deadlines ''Iowa'' None None None].
      recommended_mail_date d \<noteq> None)
   \<and> (\<exists>d \<in> set [deadlines ''Ohio'' (Some (date_of_ymd 2024 9 20)) None (Some (date_of_ymd 2024 11 5)),
                  deadlines ''Utah'' (Some (date_of_ymd 2024 9 10)) None (Some (date_of_ymd 2024 11 1)),
                  deadlines ''Iowa'' None None None].
      ballot_receipt_deadline d \<noteq> None)
   \<and> t_domain (x_scale (loaded (\<lambda>ts v. v) (\<lambda>bs s. None)
        [deadlines ''Ohio'' (Some (date_of_ymd 2024 9 20)) None (Some (date_of_ymd 2024 11 5)),
         deadlines ''Utah'' (Some (date_of_ymd 2024 9 10)) None (Some (date_of_ymd 2024 11 1)),
         deadlines ''Iowa'' None None None])) =
       (Some (date_of_ymd 2024 8 31), Some (date_of_ymd 2024 11 5))
   \<and> Min (mail_dates
        [deadlines ''Ohio'' (Some (date_of_ymd 2024 9 20)) None (Some (date_of_ymd 2024 11 5)),
         deadlines ''Utah'' (Some (date_of_ymd 2024 9 10)) None (Some (date_of_ymd 2024 11 1)),
         deadlines ''Iowa'' None None None]) = date_of_ymd 2024 9 10"
proof -
  let ?rows = "[deadlines ''Ohio'' (Some (date_of_ymd 2024 9 20)) None (Some (date_of_ymd 2024 11 5)),
         deadlines ''Utah'' (Some (date_of_ymd 2024 9 10)) None (Some (date_of_ymd 2024 11 1)),
         deadlines ''Iowa'' None None None]"
  have h1: "\<exists>d \<in> set ?rows. recommended_mail_date d \<noteq> None"
    by (simp add: deadlines_def)
  have h2: "\<exists>d \<in> set ?rows. ballot_receipt_deadline d \<noteq> None"
    by (simp add: deadlines_def)
  have m: "mail_dates ?rows = {date_of_ymd 2024 9 20, date_of_ymd 2024 9 10}"
    by (auto simp: mail_dates_char deadlines_def)
  have r: "receipt_dates ?rows = {date_of_ymd 2024 11 5, date_of_ymd 2024 11 1}"
    by (auto simp: receipt_dates_char deadlines_def)
  have mm: "Min (mail_dates ?rows) = date_of_ymd 2024 9 10"
    unfolding m by (simp add: date_of_ymd_def)
  have mr: "Max (receipt_dates ?rows) = date_of_ymd 2024 11 5"
    unfolding r by (simp add: date_of_ymd_def)
  have d: "date_of_ymd 2024 9 10 - 10 = date_of_ymd 2024 8 31"
    by (simp add: date_of_ymd_def)
  from time_axis_domain [OF h1 h2, of "\<lambda>ts v. v" "\<lambda>bs s. None"]
  have "t_domain (x_scale (loaded (\<lambda>ts v. v) (\<lambda>bs s. None) ?rows)) =
       (Some (date_of_ymd 2024 8 31), Some (date_of_ymd 2024 11 5))"
    unfolding mm mr d by simp
  with h1 h2 mm show ?thesis by blast
qed

section \<open>The legend and the fills of the dots\<close>

lemma drop_draw_mail_dots:
  "drop (length nodes) (draw_mail_dots x yc fd nodes) =
     map (dot_el x yc recommended_mail_date ''#FF6F61'')
       (enter (selectAll ''dot-mail'' nodes) (filter (\<lambda>d. recommended_mail_date d \<noteq> None) fd))"
  by (simp add: draw_mail_dots_def)

lemma drop_draw_postmark_dots:
  "drop (length nodes) (draw_postmark_dots x yc fd nodes) =
     map (dot_el x yc ballot_postmark_deadline ''#2171B5'')
       (enter (selectAll ''dot-postmark'' nodes) (filter (\<lambda>d. ballot_postmark_deadline d \<noteq> None) fd))"
  by (simp add: draw_postmark_dots_def)

lemma drop_draw_receipt_dots:
  "drop (length nodes) (draw_receipt_dots x yc fd nodes) =
     map (dot_el x yc ballot_receipt_deadline ''#EF61F7'')
       (enter (selectAll ''dot-receipt'' nodes) (filter (\<lambda>d. ballot_receipt_deadline d \<noteq> None) fd))"
  by (simp add: draw_receipt_dots_def)

text \<open>
  C10. The legend shows \<open>#FF5733\<close> for the recommended mail date and \<open>#3F78E7\<close> for the
  postmark deadline, while the dots of these two series are filled \<open>#FF6F61\<close> and
  \<open>#2171B5\<close>; only the receipt deadline has one colour, \<open>#EF61F7\<close>, in both places.
\<close>

theorem legend_colors_and_dot_fills:
  "map (\<lambda>e. (legend_label e, color e)) legendData =
     [(''Recommended Mail Date'', ''#FF5733''), (''Ballot Postmark Deadline'', ''#3F78E7''),
      (''Ballot Receipt Deadline'', ''#EF61F7'')]
   \<and> map (\<lambda>(cx, cy, r, fill). fill) legend_circles = map color legendData
   \<and> (\<forall>e \<in> set (drop (length nodes) (draw_mail_dots x yc fd nodes)). fill_of e = Some ''#FF6F61'')
   \<and> (\<forall>e \<in> set (drop (length nodes) (draw_postmark_dots x yc fd nodes)). fill_of e = Some ''#2171B5'')
   \<and> (\<forall>e \<in> set (drop (length nodes) (draw_receipt_dots x yc fd nodes)). fill_of e = Some ''#EF61F7'')
   \<and> color (legendData ! 0) \<noteq> ''#FF6F61''
   \<and> color (legendData ! 1) \<noteq> ''#2171B5''
   \<and> color (legendData ! 2) = ''#EF61F7''"
proof -
  have a: "\<forall>e \<in> set (drop (length nodes) (draw_mail_dots x yc fd nodes)). fill_of e = Some ''#FF6F61''"
    unfolding drop_draw_mail_dots by (auto simp: dot_el_def)
  have b: "\<forall>e \<in> set (drop (length nodes) (draw_postmark_dots x yc fd nodes)). fill_of e = Some ''#2171B5''"
    unfolding drop_draw_postmark_dots by (auto simp: dot_el_def)
  have c: "\<forall>e \<in> set (drop (length nodes) (draw_receipt_dots x yc fd nodes)). fill_of e = Some ''#EF61F7''"
    unfolding drop_draw_receipt_dots by (auto simp: dot_el_def)
  have d: "map (\<lambda>(cx, cy, r, fill). fill) legend_circles = map color legendData"
    by (simp add: legend_circles_def legendData_def enumerate_eq_zip)
  from a b c d show ?thesis by (simp add: legendData_def)
qed

theorem legend_colors_and_dot_fills_witness:
  "map fill_of
     (updateChart (\<lambda>v. v) (\<lambda>s. None)
        [deadlines ''Ohio'' (Some (date_of_ymd 2024 9 20)) (Some (date_of_ymd 2024 11 5))
           (Some (date_of_ymd 2024 11 9))] [])
   = [None, Some ''#FF6F61'', Some ''#2171B5'', Some ''#EF61F7'']
   \<and> map color legendData = [''#FF5733'', ''#3F78E7'', ''#EF61F7'']
   \<and> map (\<lambda>(cx, cy, r, fill). fill) legend_circles = [''#FF5733'', ''#3F78E7'', ''#EF61F7'']"
  using legend_colors_and_dot_fills [of "[]" "\<lambda>v. v" "\<lambda>s. None" "[]"]
  by (simp add: updateChart_def clear_marks_def draw_lines_def draw_mail_dots_def
      draw_postmark_dots_def draw_receipt_dots_def enter_def selectAll_def has_class_def
      deadlines_def legendData_def line_el_def dot_el_def)

section \<open>The mark renderer\<close>

lemma selectAll_empty: "list_all (\<lambda>e. \<not> has_class c e) nodes \<Longrightarrow> selectAll c nodes = []"
  by (induction nodes) (auto simp: selectAll_def)

lemma selectAll_append: "selectAll c (a @ b) = selectAll c a @ selectAll c b"
  by (simp add: selectAll_def)

lemma selectAll_line_clear: "selectAll ''line'' (clear_marks nodes) = []"
  by (induction nodes) (auto simp: selectAll_def clear_marks_def)

lemma clear_marks_idem: "clear_marks (clear_marks nodes) = clear_marks nodes"
  by (simp add: clear_marks_def)

lemma clear_draw_lines: "clear_marks (draw_lines x yc fd nodes) = clear_marks nodes"
  by (simp add: draw_lines_def clear_marks_def has_class_def filter_empty_conv line_el_def)

lemma clear_draw_mail_dots: "clear_marks (draw_mail_dots x yc fd nodes) = clear_marks nodes"
  by (simp add: draw_mail_dots_def clear_marks_def has_class_def filter_empty_conv dot_el_def)

lemma clear_draw_postmark_dots: "clear_marks (draw_postmark_dots x yc fd nodes) = clear_marks nodes"
  by (simp add: draw_postmark_dots_def clear_marks_def has_class_def filter_empty_conv dot_el_def)

lemma clear_draw_receipt_dots: "clear_marks (draw_receipt_dots x yc fd nodes) = clear_marks nodes"
  by (simp add: draw_receipt_dots_def clear_marks_def has_class_def filter_empty_conv dot_el_def)

lemma clear_updateChart: "clear_marks (updateChart x yc fd nodes) = clear_marks nodes"
  by (simp add: updateChart_def clear_draw_lines clear_draw_mail_dots clear_draw_postmark_dots
      clear_draw_receipt_dots clear_marks_idem)

lemma updateChart_via_clear: "updateChart x yc fd nodes = updateChart x yc fd (clear_marks nodes)"
  by (simp add: updateChart_def clear_marks_idem)

lemma updateChart_prefix:
  "take (length (clear_marks nodes)) (updateChart x yc fd nodes) = clear_marks nodes"
  by (simp add: updateChart_def draw_lines_def draw_mail_dots_def draw_postmark_dots_def
      draw_receipt_dots_def)

lemma no_series_clear: "no_series nodes \<Longrightarrow> no_series (clear_marks nodes)"
  by (induction nodes) (auto simp: no_series_def clear_marks_def)

lemma updateChart_explicit:
  assumes "no_series nodes"
  shows "updateChart x yc fd nodes =
     clear_marks nodes
     @ map (line_el x yc)
         (filter (\<lambda>d. recommended_mail_date d \<noteq> None \<and> ballot_receipt_deadline d \<noteq> None) fd)
     @ map (dot_el x yc recommended_mail_date ''#FF6F61'')
         (filter (\<lambda>d. recommended_mail_date d \<noteq> None) fd)
     @ map (dot_el x yc ballot_postmark_deadline ''#2171B5'')
         (filter (\<lambda>d. ballot_postmark_deadline d \<noteq> None) fd)
     @ map (dot_el x yc ballot_receipt_deadline ''#EF61F7'')
         (filter (\<lambda>d. ballot_receipt_deadline d \<noteq> None) fd)"
proof -
  let ?c = "clear_marks nodes"
  have c: "no_series ?c" using assms by (rule no_series_clear)
  have sel: "selectAll k (map f ds) = []"
    if "\<And>d. \<not> has_class k (f d)" for k :: string and f :: "entry \<Rightarrow> 'a elem" and ds
    using that by (induction ds) (auto simp: selectAll_def)
  have cm: "selectAll ''dot-mail'' ?c = []"
    using c by (auto simp: no_series_def intro!: selectAll_empty elim: list.pred_mono_strong)
  have cp: "selectAll ''dot-postmark'' ?c = []"
    using c by (auto simp: no_series_def intro!: selectAll_empty elim: list.pred_mono_strong)
  have cr: "selectAll ''dot-receipt'' ?c = []"
    using c by (auto simp: no_series_def intro!: selectAll_empty elim: list.pred_mono_strong)
  have l: "\<not> has_class k (line_el x yc d)" if "k \<noteq> ''line''" for k d
    using that by (simp add: has_class_def line_el_def)
  have d: "\<not> has_class k (dot_el x yc f fill e)" if "k \<noteq> ''dot''" for k f fill e
    using that by (simp add: has_class_def dot_el_def)
  show ?thesis
    by (simp add: updateChart_def draw_lines_def draw_mail_dots_def draw_postmark_dots_def
        draw_receipt_dots_def enter_def selectAll_line_clear selectAll_append cm cp cr
        sel l d)
qed

lemma lines_concat:
  "map (line_el x yc)
     (filter (\<lambda>d. recommended_mail_date d \<noteq> None \<and> ballot_receipt_deadline d \<noteq> None) fd)
   = concat (map (expected_line x yc) fd)"
  by (induction fd) (auto simp: expected_line_def line_el_def split: option.splits)

lemma dots_concat:
  "mset (map (dot_el x yc recommended_mail_date ''#FF6F61'')
           (filter (\<lambda>d. recommended_mail_date d \<noteq> None) fd)
         @ map (dot_el x yc ballot_postmark_deadline ''#2171B5'')
             (filter (\<lambda>d. ballot_postmark_deadline d \<noteq> None) fd)
         @ map (dot_el x yc ballot_receipt_deadline ''#EF61F7'')
             (filter (\<lambda>d. ballot_receipt_deadline d \<noteq> None) fd))
   = mset (concat (map (expected_dots x yc) fd))"
  by (induction fd)
    (auto simp: expected_dots_def expected_dot_def dot_el_def split: option.splits)

lemma length_expected_dots: "length (expected_dots x yc d) = count_dates d"
  by (auto simp: expected_dots_def expected_dot_def count_dates_def split: option.splits)

lemma length_expected_line:
  "length (expected_line x yc d) =
     (if recommended_mail_date d \<noteq> None \<and> ballot_receipt_deadline d \<noteq> None then 1 else 0)"
  by (auto simp: expected_line_def split: option.splits)

lemma filter_class_clear:
  "filter (has_class ''line'') (clear_marks nodes) = []"
  "filter (has_class ''dot'') (clear_marks nodes) = []"
  by (auto simp: clear_marks_def filter_empty_conv)

lemma filter_class_lines:
  "filter (has_class ''line'') (map (line_el x yc) ds) = map (line_el x yc) ds"
  "filter (has_class ''dot'') (map (line_el x yc) ds) = []"
  by (auto simp: filter_empty_conv has_class_def line_el_def filter_id_conv)

lemma filter_class_dots:
  "filter (has_class ''dot'') (map (dot_el x yc f fill) ds) = map (dot_el x yc f fill) ds"
  "filter (has_class ''line'') (map (dot_el x yc f fill) ds) = []"
  by (auto simp: filter_empty_conv has_class_def dot_el_def filter_id_conv)

text \<open>Every chart the program reaches is free of the three series classes.\<close>

lemma no_series_append: "no_series (a @ b) = (no_series a \<and> no_series b)"
  by (simp add: no_series_def)

lemma no_series_updateChart:
  assumes "no_series nodes"
  shows "no_series (updateChart x yc fd nodes)"
  unfolding updateChart_explicit [OF assms]
  using no_series_clear [OF assms]
  by (simp add: no_series_append) (simp add: no_series_def list_all_iff has_class_def line_el_def dot_el_def)

lemma no_series_remove_first: "no_series nodes \<Longrightarrow> no_series (remove_first c nodes)"
  by (induction nodes) (auto simp: no_series_def)

lemma has_class_style_elem: "has_class c (style_elem hs e) = has_class c e"
  by (cases e) (simp_all add: has_class_def)

lemma no_series_style: "no_series (styleHighlightedStatesYAxis nodes hs) = no_series nodes"
  by (simp add: no_series_def styleHighlightedStatesYAxis_def list_all_iff has_class_style_elem)

lemma no_series_renderYAxis: "no_series (renderYAxis y nodes) = no_series nodes"
  by (simp add: renderYAxis_def no_series_append) (simp add: no_series_def has_class_def)

lemma no_series_applyFilters:
  "no_series (svg p) \<Longrightarrow> no_series (svg (applyFilters xpos ycenter p))"
  by (simp add: applyFilters_def Let_def no_series_updateChart no_series_style
      no_series_renderYAxis no_series_remove_first)

lemma no_series_loaded: "no_series (svg (loaded xpos ycenter rows))"
  unfolding loaded_def Let_def
  by (rule no_series_applyFilters)
    (simp add: no_series_append no_series_style no_series_renderYAxis,
     simp add: no_series_def has_class_def)

lemma no_series_on_change:
  "no_series (svg p) \<Longrightarrow> no_series (svg (on_change xpos ycenter i checked p))"
  unfolding on_change_def by (rule no_series_applyFilters) simp

text \<open>
  C6. Redrawing is idempotent. For every list of entries and every earlier state of the
  chart, \<open>updateChart\<close> first removes every element of class \<open>dot\<close> or \<open>line\<close>; what it
  leaves is the earlier chart without its marks, followed by the marks it draws. So a
  second call with the same entries gives the chart of the first call, and marks of an
  earlier drawing of other entries, under other scales, leave no trace.
\<close>

theorem redraw_idempotent:
  "updateChart x yc fd (updateChart x yc fd nodes) = updateChart x yc fd nodes
   \<and> updateChart x yc fd (updateChart x' yc' fd' nodes) = updateChart x yc fd nodes
   \<and> clear_marks (updateChart x yc fd nodes) = clear_marks nodes
   \<and> take (length (clear_marks nodes)) (updateChart x yc fd nodes) = clear_marks nodes"
proof -
  have "updateChart x yc fd (updateChart x' yc' fd' nodes) = updateChart x yc fd nodes"
    for x' yc' fd'
    using updateChart_via_clear [of x yc fd "updateChart x' yc' fd' nodes"]
      updateChart_via_clear [of x yc fd nodes]
    by (simp add: clear_updateChart)
  then show ?thesis by (simp add: clear_updateChart updateChart_prefix)
qed

theorem redraw_idempotent_witness:
  "updateChart sample_x sample_yc [deadlines ''Ohio'' (Some 10) None (Some 30)]
     (updateChart sample_x sample_yc [deadlines ''Ohio'' (Some 10) None (Some 30)] stale_nodes)
   = [OtherEl ''g'' [''legend''], LineEl [''line''] 10 30 4 4 ''gray'',
      CircleEl [''dot''] 10 4 6 ''#FF6F61'', CircleEl [''dot''] 30 4 6 ''#EF61F7'']
   \<and> updateChart sample_x sample_yc [deadlines ''Ohio'' (Some 10) None (Some 30)] stale_nodes
   = [OtherEl ''g'' [''legend''], LineEl [''line''] 10 30 4 4 ''gray'',
      CircleEl [''dot''] 10 4 6 ''#FF6F61'', CircleEl [''dot''] 30 4 6 ''#EF61F7'']"
  using redraw_idempotent [of sample_x sample_yc "[deadlines ''Ohio'' (Some 10) None (Some 30)]"
      stale_nodes]
  by (simp add: updateChart_def clear_marks_def draw_lines_def draw_mail_dots_def
      draw_postmark_dots_def draw_receipt_dots_def enter_def selectAll_def has_class_def
      deadlines_def line_el_def dot_el_def stale_nodes_def sample_x_def sample_yc_def)

text \<open>
  C5. On a chart free of the three series classes, the lines in the chart after
  \<open>updateChart\<close> are, entry by entry, the one line of every entry that has both a
  recommended mail date and a receipt deadline, between the images of these two dates and
  at the centre of the entry's band, and no line for any other entry; the dots are, as a
  multiset, the dots of the entries, one of radius 6 for each date an entry has, at the
  image of that date and the centre of the band: as many as the entry has dates.
\<close>

theorem marks_drawn:
  assumes "no_series nodes"
  shows "filter (has_class ''line'') (updateChart x yc fd nodes) = concat (map (expected_line x yc) fd)
    \<and> mset (filter (has_class ''dot'') (updateChart x yc fd nodes)) =
        mset (concat (map (expected_dots x yc) fd))
    \<and> length (expected_line x yc d) =
        (if recommended_mail_date d \<noteq> None \<and> ballot_receipt_deadline d \<noteq> None then 1 else 0)
    \<and> length (expected_dots x yc d) = count_dates d"
proof -
  have "filter (has_class ''line'') (updateChart x yc fd nodes) =
       map (line_el x yc)
         (filter (\<lambda>d. recommended_mail_date d \<noteq> None \<and> ballot_receipt_deadline d \<noteq> None) fd)"
    unfolding updateChart_explicit [OF assms]
    by (simp add: filter_class_clear filter_class_lines filter_class_dots)
  then have a: "filter (has_class ''line'') (updateChart x yc fd nodes) =
       concat (map (expected_line x yc) fd)"
    by (simp only: lines_concat)
  have "filter (has_class ''dot'') (updateChart x yc fd nodes) =
       map (dot_el x yc recommended_mail_date ''#FF6F61'')
           (filter (\<lambda>d. recommended_mail_date d \<noteq> None) fd)
         @ map (dot_el x yc ballot_postmark_deadline ''#2171B5'')
             (filter (\<lambda>d. ballot_postmark_deadline d \<noteq> None) fd)
         @ map (dot_el x yc ballot_receipt_deadline ''#EF61F7'')
             (filter (\<lambda>d. ballot_receipt_deadline d \<noteq> None) fd)"
    unfolding updateChart_explicit [OF assms]
    by (simp add: filter_class_clear filter_class_lines filter_class_dots)
  then have b: "mset (filter (has_class ''dot'') (updateChart x yc fd nodes)) =
        mset (concat (map (expected_dots x yc) fd))"
    using dots_concat [of x yc fd] by simp
  from a b show ?thesis by (simp add: length_expected_dots length_expected_line)
qed

theorem marks_drawn_witness:
  "no_series stale_nodes
   \<and> filter (has_class ''line'')
       (updateChart sample_x sample_yc
          [deadlines ''Ohio'' (Some 10) (Some 20) (Some 30), deadlines ''Iowa'' None (Some 25) None,
           deadlines ''Utah'' None None None] stale_nodes)
     = [LineEl [''line''] 10 30 4 4 ''gray'']
   \<and> filter (has_class ''dot'')
       (updateChart sample_x sample_yc
          [deadlines ''Ohio'' (Some 10) (Some 20) (Some 30), deadlines ''Iowa'' None (Some 25) None,
           deadlines ''Utah'' None None None] stale_nodes)
     = [CircleEl [''dot''] 10 4 6 ''#FF6F61'', CircleEl [''dot''] 20 4 6 ''#2171B5'',
        CircleEl [''dot''] 25 4 6 ''#2171B5'', CircleEl [''dot''] 30 4 6 ''#EF61F7'']
   \<and> count_dates (deadlines ''Ohio'' (Some 10) (Some 20) (Some 30)) = 3
   \<and> count_dates (deadlines ''Iowa'' None (Some 25) None) = 1
   \<and> count_dates (deadlines ''Utah'' None None None) = 0"
proof -
  have h: "no_series stale_nodes"
    by (simp add: no_series_def stale_nodes_def has_class_def)
  from marks_drawn [OF h, of sample_x sample_yc
      "[deadlines ''Ohio'' (Some 10) (Some 20) (Some 30), deadlines ''Iowa'' None (Some 25) None,
           deadlines ''Utah'' None None None]" "deadlines ''Ohio'' (Some 10) (Some 20) (Some 30)"]
  have a: "filter (has_class ''line'')
       (updateChart sample_x sample_yc
          [deadlines ''Ohio'' (Some 10) (Some 20) (Some 30), deadlines ''Iowa'' None (Some 25) None,
           deadlines ''Utah'' None None None] stale_nodes)
     = [LineEl [''line''] 10 30 4 4 ''gray'']"
    by (simp add: expected_line_def deadlines_def sample_x_def sample_yc_def)
  have b: "filter (has_class ''dot'')
       (updateChart sample_x sample_yc
          [deadlines ''Ohio'' (Some 10) (Some 20) (Some 30), deadlines ''Iowa'' None (Some 25) None,
           deadlines ''Utah'' None None None] stale_nodes)
     = [CircleEl [''dot''] 10 4 6 ''#FF6F61'', CircleEl [''dot''] 20 4 6 ''#2171B5'',
        CircleEl [''dot''] 25 4 6 ''#2171B5'', CircleEl [''dot''] 30 4 6 ''#EF61F7'']"
    by (simp add: updateChart_def clear_marks_def draw_lines_def draw_mail_dots_def
      draw_postmark_dots_def draw_receipt_dots_def enter_def selectAll_def has_class_def
      deadlines_def line_el_def dot_el_def stale_nodes_def sample_x_def sample_yc_def)
  have c: "count_dates (deadlines ''Ohio'' (Some 10) (Some 20) (Some 30)) = 3
   \<and> count_dates (deadlines ''Iowa'' None (Some 25) None) = 1
   \<and> count_dates (deadlines ''Utah'' None None None) = 0"
    by (simp add: count_dates_def deadlines_def)
  from h a b c show ?thesis by blast
qed

section \<open>The band scale's domain and the tick labels\<close>

lemma band_domain_aux:
  "set (foldl domain_step acc vs) = set acc \<union> set vs
   \<and> (distinct acc \<longrightarrow> distinct (foldl domain_step acc vs))"
  by (induction vs arbitrary: acc) (auto simp: domain_step_def)

lemma set_band_domain: "set (band_domain vs) = set vs"
  using band_domain_aux [of "[]" vs] by (simp add: band_domain_def)

lemma distinct_band_domain: "distinct (band_domain vs)"
  using band_domain_aux [of "[]" vs] by (simp add: band_domain_def)

lemma foldl_domain_step_distinct:
  "distinct (acc @ vs) \<Longrightarrow> foldl domain_step acc vs = acc @ vs"
  by (induction vs arbitrary: acc) (auto simp: domain_step_def)

lemma band_domain_distinct: "distinct vs \<Longrightarrow> band_domain vs = vs"
  using foldl_domain_step_distinct [of "[]" vs] by (simp add: band_domain_def)

lemma band_domain_idem: "band_domain (band_domain vs) = band_domain vs"
  by (simp add: band_domain_distinct distinct_band_domain)

lemma style_tick_classified: "tick_classified (style_tick highlightedStates t)"
  by (auto simp: tick_classified_def style_tick_def classed_def)

lemma style_fresh_tick:
  "style_tick highlightedStates \<lparr> datum = s, label = tickFormat s, tclasses = [] \<rparr> =
     classified_tick s"
  by (simp add: style_tick_def classed_def classified_tick_def tickFormat_def)

lemma axis_ticks_style:
  "axis_ticks (style_elem hs e) = map (style_tick hs) (axis_ticks e)"
  by (cases e) simp_all

lemma y_ticks_style:
  "y_ticks (styleHighlightedStatesYAxis nodes hs) = map (style_tick hs) (y_ticks nodes)"
  by (induction nodes) (simp_all add: y_ticks_def styleHighlightedStatesYAxis_def axis_ticks_style)

lemma style_render:
  "styleHighlightedStatesYAxis (renderYAxis y nodes) highlightedStates =
     styleHighlightedStatesYAxis nodes highlightedStates
     @ [AxisG [''y-axis''] (map classified_tick (b_domain y))]"
  by (simp add: styleHighlightedStatesYAxis_def renderYAxis_def style_fresh_tick comp_def)

lemma y_ticks_append: "y_ticks (a @ b) = y_ticks a @ y_ticks b"
  by (simp add: y_ticks_def)

lemma y_ticks_clear: "set (y_ticks (clear_marks nodes)) \<subseteq> set (y_ticks nodes)"
  by (auto simp: y_ticks_def clear_marks_def)

lemma y_ticks_marks:
  "y_ticks (map (line_el x yc) ds) = []" "y_ticks (map (dot_el x yc f fill) es) = []"
  by (simp_all add: y_ticks_def line_el_def dot_el_def)

lemma y_ticks_updateChart: "set (y_ticks (updateChart x yc fd nodes)) \<subseteq> set (y_ticks nodes)"
  using y_ticks_clear [of nodes]
  by (simp add: updateChart_def draw_lines_def draw_mail_dots_def draw_postmark_dots_def
      draw_receipt_dots_def y_ticks_append y_ticks_marks)

lemma applyFilters_svg:
  "svg (applyFilters xpos ycenter p) =
     updateChart (xpos (x_scale p)) (ycenter (y_scale (applyFilters xpos ycenter p)))
       (filteredData (filters p) (data p))
       (styleHighlightedStatesYAxis
          (renderYAxis (y_scale (applyFilters xpos ycenter p)) (remove_first ''y-axis'' (svg p)))
          highlightedStates)"
  by (simp add: applyFilters_def Let_def)

lemma applyFilters_ticks_classified:
  assumes "t \<in> set (y_ticks (svg (applyFilters xpos ycenter p)))"
  shows "tick_classified t"
proof -
  from assms have "t \<in> set (y_ticks (styleHighlightedStatesYAxis
          (renderYAxis (y_scale (applyFilters xpos ycenter p)) (remove_first ''y-axis'' (svg p)))
          highlightedStates))"
    unfolding applyFilters_svg using y_ticks_updateChart by blast
  then show ?thesis by (auto simp: y_ticks_style style_tick_classified)
qed

text \<open>
  C7. After \<open>styleHighlightedStatesYAxis\<close>, and so after every \<open>applyFilters\<close> whatever the
  filter state and the domain, every tick label of the y axis carries exactly one of the two
  classes: \<open>highlighted-tick\<close> if and only if its state is one of the eleven highlighted
  states, \<open>normal-tick\<close> otherwise. A freshly rendered axis has, for every state of the
  domain, the label with that one class. \<open>Wisconsin\<close> is highlighted, \<open>Texas\<close> is not.
\<close>

theorem tick_labels_classified:
  "(\<forall>t \<in> set (y_ticks (styleHighlightedStatesYAxis nodes highlightedStates)). tick_classified t)
   \<and> (\<forall>t \<in> set (y_ticks (svg (applyFilters xpos ycenter p))). tick_classified t)
   \<and> styleHighlightedStatesYAxis (renderYAxis y nodes) highlightedStates =
       styleHighlightedStatesYAxis nodes highlightedStates
       @ [AxisG [''y-axis''] (map classified_tick (b_domain y))]
   \<and> set highlightedStates =
       {''Pennsylvania'', ''Georgia'', ''North Carolina'', ''Wisconsin'', ''Michigan'',
        ''Arizona'', ''Nevada'', ''Nebraska'', ''New Hampshire'', ''Ohio'', ''Montana''}
   \<and> length highlightedStates = 11 \<and> distinct highlightedStates
   \<and> tclasses (classified_tick ''Wisconsin'') = [''highlighted-tick'']
   \<and> tclasses (classified_tick ''Texas'') = [''normal-tick'']"
proof -
  have a: "\<forall>t \<in> set (y_ticks (styleHighlightedStatesYAxis nodes highlightedStates)). tick_classified t"
    by (auto simp: y_ticks_style style_tick_classified)
  have b: "\<forall>t \<in> set (y_ticks (svg (applyFilters xpos ycenter p))). tick_classified t"
    using applyFilters_ticks_classified by blast
  have c: "set highlightedStates =
       {''Pennsylvania'', ''Georgia'', ''North Carolina'', ''Wisconsin'', ''Michigan'',
        ''Arizona'', ''Nevada'', ''Nebraska'', ''New Hampshire'', ''Ohio'', ''Montana''}
   \<and> length highlightedStates = 11 \<and> distinct highlightedStates"
    by (simp add: highlightedStates_def)
  have d: "tclasses (classified_tick ''Wisconsin'') = [''highlighted-tick'']
   \<and> tclasses (classified_tick ''Texas'') = [''normal-tick'']"
    by (simp add: classified_tick_def highlightedStates_def)
  from a b c d show ?thesis by (simp add: style_render)
qed

theorem tick_labels_classified_witness:
  "y_ticks (svg (applyFilters (\<lambda>ts. sample_x) (\<lambda>bs. sample_yc)
      (sample_page \<lparr> all = True, post = False, postElectronic = False \<rparr>)))
   = [\<lparr> datum = ''Wisconsin'', label = ''Wisconsin'', tclasses = [''highlighted-tick''] \<rparr>,
      \<lparr> datum = ''Texas'', label = ''Texas'', tclasses = [''normal-tick''] \<rparr>,
      \<lparr> datum = ''Ohio'', label = ''Ohio'', tclasses = [''highlighted-tick''] \<rparr>]
   \<and> y_ticks (svg (applyFilters (\<lambda>ts. sample_x) (\<lambda>bs. sample_yc)
      (sample_page \<lparr> all = False, post = False, postElectronic = True \<rparr>)))
   = [\<lparr> datum = ''Texas'', label = ''Texas'', tclasses = [''normal-tick''] \<rparr>]
   \<and> list_all tick_classified
       (y_ticks (svg (applyFilters (\<lambda>ts. sample_x) (\<lambda>bs. sample_yc)
          (sample_page \<lparr> all = False, post = True, postElectronic = False \<rparr>))))"
proof -
  have a: "y_ticks (svg (applyFilters (\<lambda>ts. sample_x) (\<lambda>bs. sample_yc)
      (sample_page \<lparr> all = True, post = False, postElectronic = False \<rparr>)))
   = [\<lparr> datum = ''Wisconsin'', label = ''Wisconsin'', tclasses = [''highlighted-tick''] \<rparr>,
      \<lparr> datum = ''Texas'', label = ''Texas'', tclasses = [''normal-tick''] \<rparr>,
      \<lparr> datum = ''Ohio'', label = ''Ohio'', tclasses = [''highlighted-tick''] \<rparr>]"
    by code_simp
  have b: "y_ticks (svg (applyFilters (\<lambda>ts. sample_x) (\<lambda>bs. sample_yc)
      (sample_page \<lparr> all = False, post = False, postElectronic = True \<rparr>)))
   = [\<lparr> datum = ''Texas'', label = ''Texas'', tclasses = [''normal-tick''] \<rparr>]"
    by code_simp
  from tick_labels_classified [of "[]" "\<lambda>ts. sample_x" "\<lambda>bs. sample_yc"
      "sample_page \<lparr> all = False, post = True, postElectronic = False \<rparr>"
      "y_scale_of sample_data"]
  have "list_all tick_classified
       (y_ticks (svg (applyFilters (\<lambda>ts. sample_x) (\<lambda>bs. sample_yc)
          (sample_page \<lparr> all = False, post = True, postElectronic = False \<rparr>))))"
    unfolding list_all_iff by blast
  with a b show ?thesis by blast
qed

lemma applyFilters_y_domain:
  "b_domain (y_scale (applyFilters xpos ycenter p)) =
     band_domain (map state (filteredData (filters p) (data p)))"
  by (simp add: applyFilters_def Let_def filteredStates_def band_domain_idem)

text \<open>
  C8. \<open>applyFilters\<close> leaves the entries, the filter state and the time scale (so its
  domain) as they are. Of the band scale it changes the domain only, which becomes the
  distinct states of the filtered entries, in the order of their first occurrence.
\<close>

theorem applyFilters_frame:
  "data (applyFilters xpos ycenter p) = data p
   \<and> filters (applyFilters xpos ycenter p) = filters p
   \<and> x_scale (applyFilters xpos ycenter p) = x_scale p
   \<and> b_range (y_scale (applyFilters xpos ycenter p)) = b_range (y_scale p)
   \<and> b_padding (y_scale (applyFilters xpos ycenter p)) = b_padding (y_scale p)
   \<and> b_domain (y_scale (applyFilters xpos ycenter p)) =
       band_domain (map state (filteredData (filters p) (data p)))
   \<and> set (b_domain (y_scale (applyFilters xpos ycenter p))) =
       state ` set (filteredData (filters p) (data p))
   \<and> distinct (b_domain (y_scale (applyFilters xpos ycenter p)))"
  by (simp add: applyFilters_y_domain set_band_domain distinct_band_domain)
    (simp add: applyFilters_def Let_def)

theorem applyFilters_frame_witness:
  "b_domain (y_scale (sample_page \<lparr> all = False, post = True, postElectronic = False \<rparr>))
     = [''Wisconsin'', ''Texas'', ''Ohio'']
   \<and> b_domain (y_scale (applyFilters (\<lambda>ts. sample_x) (\<lambda>bs. sample_yc)
        (sample_page \<lparr> all = False, post = True, postElectronic = False \<rparr>)))
     = [''Wisconsin'', ''Ohio'']
   \<and> data (applyFilters (\<lambda>ts. sample_x) (\<lambda>bs. sample_yc)
        (sample_page \<lparr> all = False, post = True, postElectronic = False \<rparr>)) = sample_data
   \<and> t_domain (x_scale (applyFilters (\<lambda>ts. sample_x) (\<lambda>bs. sample_yc)
        (sample_page \<lparr> all = False, post = True, postElectronic = False \<rparr>))) = (Some 0, Some 30)"
proof -
  have a: "b_domain (y_scale (sample_page \<lparr> all = False, post = True, postElectronic = False \<rparr>))
     = [''Wisconsin'', ''Texas'', ''Ohio'']"
    by code_simp
  have b: "band_domain (map state (filteredData \<lparr> all = False, post = True, postElectronic = False \<rparr>
     sample_data)) = [''Wisconsin'', ''Ohio'']"
    by code_simp
  have c: "t_domain (x_scale_of sample_data) = (Some 0, Some 30)"
    by code_simp
  from applyFilters_frame [of "\<lambda>ts. sample_x" "\<lambda>bs. sample_yc"
      "sample_page \<lparr> all = False, post = True, postElectronic = False \<rparr>"] a b c
  show ?thesis by (simp add: sample_page_def)
qed

section \<open>The row accessor\<close>

lemma digit_not_space: "is_digit c \<Longrightarrow> \<not> is_space c"
  by (auto simp: is_digit_def is_space_def)

lemma slash_not_digit: "\<not> is_digit CHR ''/''"
  by (simp add: is_digit_def)

lemma dropWhile_self: "d \<noteq> [] \<Longrightarrow> \<not> P (hd d) \<Longrightarrow> dropWhile P d = d"
  by (cases d) simp_all

lemma takeWhile_stop: "r = [] \<or> \<not> P (hd r) \<Longrightarrow> takeWhile P r = []"
  by (cases r) auto

lemma takeWhile_all: "list_all P d \<Longrightarrow> r = [] \<or> \<not> P (hd r) \<Longrightarrow> takeWhile P (d @ r) = d"
  by (induction d) (simp_all add: takeWhile_stop)

lemma number_match_sound:
  assumes "number_match k s = Some (v, r)"
  shows "\<exists>f. s = f @ r \<and> lenient_field k f \<and> v = number_value (dropWhile is_space f)"
proof -
  let ?sl = "take k s"
  let ?ws = "takeWhile is_space ?sl"
  let ?ds = "takeWhile is_digit (dropWhile is_space ?sl)"
  let ?f = "?ws @ ?ds"
  from assms have ne: "?ds \<noteq> []" and v: "v = number_value ?ds"
    and r: "r = drop (length ?ws + length ?ds) s"
    by (auto simp: number_match_def Let_def split: if_splits)
  have sl: "?sl = ?f @ dropWhile is_digit (dropWhile is_space ?sl)"
    by (metis append.assoc takeWhile_dropWhile_id)
  then have len: "length ?f \<le> k"
    by (metis length_append le_add1 length_take min.cobounded2 order_trans)
  have "s = ?sl @ drop k s" by simp
  then have s: "s = ?f @ (dropWhile is_digit (dropWhile is_space ?sl) @ drop k s)"
    using sl by (metis append.assoc)
  have "drop (length ?f) s = dropWhile is_digit (dropWhile is_space ?sl) @ drop k s"
    by (subst s) (simp only: append_eq_conv_conj drop_append length_append, simp)
  with r s have split: "s = ?f @ r" by (metis length_append)
  have hd: "\<not> is_space (hd ?ds)"
    using ne digit_not_space by (metis hd_in_set set_takeWhileD)
  have "dropWhile is_space ?f = dropWhile is_space ?ds"
    by (rule dropWhile_append2) (auto dest: set_takeWhileD)
  also have "\<dots> = ?ds"
    using ne hd by (rule dropWhile_self)
  finally have dw: "dropWhile is_space ?f = ?ds" .
  have "list_all is_digit ?ds"
    by (simp add: list_all_iff) (metis set_takeWhileD)
  with len ne dw have "lenient_field k ?f"
    by (simp add: lenient_field_def)
  with split v dw show ?thesis by metis
qed

lemma number_match_complete:
  assumes f: "lenient_field k f" and r: "r = [] \<or> \<not> is_digit (hd r)"
  shows "number_match k (f @ r) = Some (number_value (dropWhile is_space f), r)"
proof -
  let ?w = "takeWhile is_space f"
  let ?d = "dropWhile is_space f"
  let ?r = "take (k - length f) r"
  from f have len: "length f \<le> k" and ne: "?d \<noteq> []" and dig: "list_all is_digit ?d"
    by (simp_all add: lenient_field_def)
  have fw: "f = ?w @ ?d" by simp
  have hd: "\<not> is_space (hd ?d)"
    using ne dig digit_not_space by (cases ?d) (simp_all del: dropWhile_eq_Nil_conv)
  have sl: "take k (f @ r) = ?w @ (?d @ ?r)"
    using len by simp
  have r': "?r = [] \<or> \<not> is_digit (hd ?r)"
    using r by (cases r; cases "k - length f") auto
  have tw: "takeWhile is_space (?w @ (?d @ ?r)) = ?w"
  proof -
    have "takeWhile is_space (?w @ (?d @ ?r)) = ?w @ takeWhile is_space (?d @ ?r)"
      by (rule takeWhile_append2) (auto dest: set_takeWhileD)
    moreover have "takeWhile is_space (?d @ ?r) = []"
      using ne hd by (cases ?d) (simp_all del: dropWhile_eq_Nil_conv)
    ultimately show ?thesis by simp
  qed
  have dw: "dropWhile is_space (?w @ (?d @ ?r)) = ?d @ ?r"
  proof -
    have "dropWhile is_space (?w @ (?d @ ?r)) = dropWhile is_space (?d @ ?r)"
      by (rule dropWhile_append2) (auto dest: set_takeWhileD)
    also have "\<dots> = ?d @ ?r"
      using ne hd by (intro dropWhile_self) (simp_all del: dropWhile_eq_Nil_conv)
    finally show ?thesis .
  qed
  have td: "takeWhile is_digit (?d @ ?r) = ?d"
    using dig r' by (rule takeWhile_all)
  have dr: "drop (length ?w + length ?d) (f @ r) = r"
  proof -
    have "length ?w + length ?d = length f"
      by (metis fw length_append)
    then show ?thesis by simp
  qed
  show ?thesis
    unfolding number_match_def Let_def sl tw dw td dr using ne by simp
qed

lemma lenient_field_nonempty: "lenient_field k f \<Longrightarrow> f \<noteq> []"
  by (auto simp: lenient_field_def)

lemma parse_fields_accepts:
  assumes "lenient_field 2 a" and "lenient_field 2 b" and "lenient_field 4 c"
  shows "parse_fields (a @ ''/'' @ b @ ''/'' @ c) =
     Some (number_value (dropWhile is_space c), number_value (dropWhile is_space a) - 1,
           number_value (dropWhile is_space b))"
proof -
  have 1: "number_match 2 (a @ (CHR ''/'' # b @ CHR ''/'' # c)) =
      Some (number_value (dropWhile is_space a), CHR ''/'' # b @ CHR ''/'' # c)"
    using assms(1) by (rule number_match_complete) (simp add: slash_not_digit)
  have 2: "number_match 2 (b @ (CHR ''/'' # c)) =
      Some (number_value (dropWhile is_space b), CHR ''/'' # c)"
    using assms(2) by (rule number_match_complete) (simp add: slash_not_digit)
  have 3: "number_match 4 (c @ []) = Some (number_value (dropWhile is_space c), [])"
    using assms(3) by (rule number_match_complete) simp
  have ne: "a \<noteq> []" "b \<noteq> []" "c \<noteq> []"
    using assms by (simp_all add: lenient_field_nonempty)
  show ?thesis
    using 1 2 3 ne by (simp add: parse_fields_def)
qed

lemma parse_fields_shape:
  assumes "parse_fields s = Some v"
  shows "lenient_mdY s"
proof -
  from assms obtain mo s2 dy s4 yr
    where m1: "number_match 2 s = Some (mo, CHR ''/'' # s2)"
      and m2: "number_match 2 s2 = Some (dy, CHR ''/'' # s4)"
      and m3: "number_match 4 s4 = Some (yr, [])"
    by (auto simp: parse_fields_def split: if_splits option.splits list.splits)
  from number_match_sound [OF m1] obtain a
    where a: "s = a @ CHR ''/'' # s2" "lenient_field 2 a" by blast
  from number_match_sound [OF m2] obtain b
    where b: "s2 = b @ CHR ''/'' # s4" "lenient_field 2 b" by blast
  from number_match_sound [OF m3] obtain c
    where c: "s4 = c @ []" "lenient_field 4 c" by blast
  have "s = a @ ''/'' @ b @ ''/'' @ c"
    using a(1) b(1) c(1) by simp
  with a(2) b(2) c(2) show ?thesis
    unfolding lenient_mdY_def by blast
qed

lemma parse_fields_none_iff: "(parse_fields s = None) = (\<not> lenient_mdY s)"
proof
  assume n: "parse_fields s = None"
  show "\<not> lenient_mdY s"
  proof
    assume "lenient_mdY s"
    then obtain a b c where "s = a @ ''/'' @ b @ ''/'' @ c"
      "lenient_field 2 a" "lenient_field 2 b" "lenient_field 4 c"
      unfolding lenient_mdY_def by blast
    with parse_fields_accepts [of a b c] n show False by simp
  qed
next
  assume l: "\<not> lenient_mdY s"
  show "parse_fields s = None"
  proof (cases "parse_fields s")
    case None
    then show ?thesis .
  next
    case (Some v)
    then have "lenient_mdY s" by (rule parse_fields_shape)
    with l show ?thesis by simp
  qed
qed

lemma date_cell_null: "(date_cell c = None) = (\<not> lenient_mdY c)"
proof (cases "c = ''N/A''")
  case True
  have "parse_fields ''N/A'' = None" by code_simp
  then have "\<not> lenient_mdY ''N/A''"
    using parse_fields_none_iff [of "''N/A''"] by blast
  with True show ?thesis by (simp add: date_cell_def)
next
  case False
  then have "(date_cell c = None) = (parse_fields c = None)"
    by (simp add: date_cell_def parseDate_def)
  then show ?thesis using parse_fields_none_iff [of c] by (rule trans)
qed

lemma all_digits_field:
  assumes "list_all is_digit f" and "f \<noteq> []" and "length f \<le> k"
  shows "lenient_field k f"
proof -
  have "\<not> is_space (hd f)"
    using assms(1,2) digit_not_space by (cases f) simp_all
  with assms(2) have "dropWhile is_space f = f" by (rule dropWhile_self)
  with assms show ?thesis by (simp add: lenient_field_def)
qed

lemma mdY_date_split:
  assumes "is_mdY_date s"
  shows "s = take 2 s @ ''/'' @ take 2 (drop 3 s) @ ''/'' @ drop 6 s
    \<and> lenient_field 2 (take 2 s) \<and> lenient_field 2 (take 2 (drop 3 s))
    \<and> lenient_field 4 (drop 6 s)
    \<and> dropWhile is_space (take 2 s) = take 2 s
    \<and> dropWhile is_space (take 2 (drop 3 s)) = take 2 (drop 3 s)
    \<and> dropWhile is_space (drop 6 s) = drop 6 s"
proof -
  from assms have len: "length s = 10" and s2: "s ! 2 = CHR ''/''" and s5: "s ! 5 = CHR ''/''"
    and d: "list_all is_digit (take 2 s)" "list_all is_digit (take 2 (drop 3 s))"
      "list_all is_digit (drop 6 s)"
    by (simp_all add: is_mdY_date_def)
  have e: "drop 2 (drop 3 s) = drop 5 s" by simp
  have "drop 3 s = take 2 (drop 3 s) @ drop 2 (drop 3 s)"
    by (rule append_take_drop_id [symmetric])
  then have d3: "drop 3 s = take 2 (drop 3 s) @ drop 5 s" by (simp only: e)
  have "s = take 2 s @ drop 2 s" by simp
  also have "drop 2 s = s ! 2 # drop 3 s"
    using len by (simp add: Cons_nth_drop_Suc [symmetric])
  also have "drop 3 s = take 2 (drop 3 s) @ drop 5 s" by (rule d3)
  also have "drop 5 s = s ! 5 # drop 6 s"
    using len by (simp add: Cons_nth_drop_Suc [symmetric])
  finally have split: "s = take 2 s @ ''/'' @ take 2 (drop 3 s) @ ''/'' @ drop 6 s"
    using s2 s5 by simp
  have ne: "take 2 s \<noteq> []" "take 2 (drop 3 s) \<noteq> []" "drop 6 s \<noteq> []"
    using len by auto
  have f: "lenient_field 2 (take 2 s)" "lenient_field 2 (take 2 (drop 3 s))"
    "lenient_field 4 (drop 6 s)"
    using d ne len by (auto intro!: all_digits_field)
  have w: "dropWhile is_space f = f" if "list_all is_digit f" "f \<noteq> []" for f
  proof -
    have "\<not> is_space (hd f)" using that digit_not_space by (cases f) simp_all
    with that(2) show ?thesis by (rule dropWhile_self)
  qed
  from split f w [OF d(1) ne(1)] w [OF d(2) ne(2)] w [OF d(3) ne(3)]
  show ?thesis by blast
qed

lemma mdY_date_lenient: "is_mdY_date s \<Longrightarrow> lenient_mdY s"
  using mdY_date_split [of s] unfolding lenient_mdY_def by blast

lemma make_day_in_year:
  assumes "1 \<le> m" and "m \<le> 12"
  shows "make_day y (m - 1) d = date_of_ymd y m d"
proof -
  have "(m - 1) div 12 = 0" "(m - 1) mod 12 + 1 = m" using assms by simp_all
  then show ?thesis by (simp add: make_day_def date_of_ymd_def Let_def)
qed

text \<open>A date in \<open>MM/DD/YYYY\<close> format with a year from 100 on is parsed to that date.\<close>

lemma mdY_date_parses:
  assumes "is_mdY_date s" and "100 \<le> number_value (drop 6 s)"
  shows "parseDate s =
     Some (date_of_ymd (number_value (drop 6 s)) (number_value (take 2 s))
             (number_value (take 2 (drop 3 s))))"
proof -
  let ?a = "take 2 s" and ?b = "take 2 (drop 3 s)" and ?c = "drop 6 s"
  from mdY_date_split [OF assms(1)]
  have split: "s = ?a @ ''/'' @ ?b @ ''/'' @ ?c"
    and f: "lenient_field 2 ?a" "lenient_field 2 ?b" "lenient_field 4 ?c"
    and w: "dropWhile is_space ?a = ?a" "dropWhile is_space ?b = ?b" "dropWhile is_space ?c = ?c"
    by blast+
  have "parse_fields (?a @ ''/'' @ ?b @ ''/'' @ ?c) =
      Some (number_value ?c, number_value ?a - 1, number_value ?b)"
    using parse_fields_accepts [OF f] by (simp only: w)
  with split have p: "parse_fields s = Some (number_value ?c, number_value ?a - 1, number_value ?b)"
    by simp
  from assms(1) have m: "1 \<le> number_value ?a" "number_value ?a \<le> 12"
    by (simp_all add: is_mdY_date_def)
  show ?thesis
    using p assms(2) make_day_in_year [OF m]
    by (simp add: parseDate_def localDate_def)
qed

text \<open>
  The cell \<open>13/45/2024\<close> is neither \<open>N/A\<close> nor a date in \<open>MM/DD/YYYY\<close> format, and
  the parser accepts it: the month 13 and the day 45 roll over to 2025-02-14, and the entry
  differs from the entry of an \<open>N/A\<close> cell.
\<close>

theorem malformed_date_parses_to_date:
  "''13/45/2024'' \<noteq> ''N/A'' \<and> \<not> is_mdY_date ''13/45/2024''
   \<and> date_cell ''13/45/2024'' = Some (date_of_ymd 2025 2 14)
   \<and> row_accessor (sample_row ''13/45/2024'' ''N/A'' ''N/A'') \<noteq>
       row_accessor (sample_row ''N/A'' ''N/A'' ''N/A'')"
proof -
  have a: "\<not> is_mdY_date ''13/45/2024''" by code_simp
  have b: "date_cell ''13/45/2024'' = Some (date_of_ymd 2025 2 14)" by code_simp
  have c: "date_cell ''N/A'' = None" by (simp add: date_cell_def)
  from b c have "row_accessor (sample_row ''13/45/2024'' ''N/A'' ''N/A'') \<noteq>
       row_accessor (sample_row ''N/A'' ''N/A'' ''N/A'')"
    by (simp add: row_accessor_def sample_row_def)
  with a b show ?thesis by simp
qed

text \<open>
  C9, as the script has it. A date cell becomes \<open>null\<close> exactly when it does not have the
  shape the parser accepts: optional white space and digits in at most two characters, a
  slash, the same again, a slash, optional white space and digits in at most four
  characters, and nothing more. The row accessor returns an entry for every row, and for a
  cell that is not of this shape the entry is the entry of the same row with \<open>N/A\<close> in that
  cell, for each of the three date columns. Every date in \<open>MM/DD/YYYY\<close> format has the
  shape; so have cells that are no such date, which become dates: \<open>13/45/2024\<close>,
  \<open>02/30/2024\<close>, \<open>11/5/2024\<close> and \<open>11/05/24\<close>.
\<close>

theorem rejected_date_parses_to_null:
  "(date_cell c = None) = (\<not> lenient_mdY c)
   \<and> (\<not> lenient_mdY c \<longrightarrow>
        row_accessor (d \<lparr> col_Recommended_Mail_Date := c \<rparr>) =
          row_accessor (d \<lparr> col_Recommended_Mail_Date := ''N/A'' \<rparr>)
        \<and> row_accessor (d \<lparr> col_Ballot_Postmark_Deadline := c \<rparr>) =
          row_accessor (d \<lparr> col_Ballot_Postmark_Deadline := ''N/A'' \<rparr>)
        \<and> row_accessor (d \<lparr> col_Ballot_Receipt_Deadline := c \<rparr>) =
          row_accessor (d \<lparr> col_Ballot_Receipt_Deadline := ''N/A'' \<rparr>))
   \<and> (is_mdY_date c \<longrightarrow> lenient_mdY c)
   \<and> date_cell ''13/45/2024'' = Some (date_of_ymd 2025 2 14)
   \<and> date_cell ''02/30/2024'' = Some (date_of_ymd 2024 3 1)
   \<and> date_cell ''11/5/2024'' = Some (date_of_ymd 2024 11 5)
   \<and> date_cell ''11/05/24'' = Some (date_of_ymd 24 11 5)"
proof -
  have n: "date_cell ''N/A'' = None" by (simp add: date_cell_def)
  have r: "date_cell c = date_cell ''N/A''" if "\<not> lenient_mdY c"
  proof -
    from that have "date_cell c = None" by (simp add: date_cell_null)
    with n show ?thesis by simp
  qed
  have e1: "date_cell ''13/45/2024'' = Some (date_of_ymd 2025 2 14)" by code_simp
  have e2: "date_cell ''02/30/2024'' = Some (date_of_ymd 2024 3 1)" by code_simp
  have e3: "date_cell ''11/5/2024'' = Some (date_of_ymd 2024 11 5)" by code_simp
  have e4: "date_cell ''11/05/24'' = Some (date_of_ymd 24 11 5)" by code_simp
  show ?thesis
    using r e1 e2 e3 e4 mdY_date_lenient [of c]
    by (simp add: date_cell_null row_accessor_def)
qed

theorem rejected_date_parses_to_null_witness:
  "\<not> lenient_mdY ''soon''
   \<and> row_accessor (sample_row ''soon'' ''11/05/2024'' ''N/A'') =
       row_accessor (sample_row ''N/A'' ''11/05/2024'' ''N/A'')
   \<and> row_accessor (sample_row ''soon'' ''11/05/2024'' ''N/A'') =
       \<lparr> state = ''Ohio'', recommended_mail_date = None,
         ballot_postmark_deadline = Some (date_of_ymd 2024 11 5),
         ballot_receipt_deadline = None, return_methods = ''Post'' \<rparr>
   \<and> is_mdY_date ''11/05/2024'' \<and> lenient_mdY ''11/05/2024''"
proof -
  have "parse_fields ''soon'' = None" by code_simp
  then have h: "\<not> lenient_mdY ''soon''"
    using parse_fields_none_iff [of "''soon''"] by blast
  have i: "is_mdY_date ''11/05/2024''" by code_simp
  note t = rejected_date_parses_to_null
    [of "''soon''" "sample_row ''N/A'' ''11/05/2024'' ''N/A''"]
  from t h have a: "row_accessor (sample_row ''soon'' ''11/05/2024'' ''N/A'') =
       row_accessor (sample_row ''N/A'' ''11/05/2024'' ''N/A'')"
    by (simp add: sample_row_def)
  have b: "row_accessor (sample_row ''N/A'' ''11/05/2024'' ''N/A'') =
       \<lparr> state = ''Ohio'', recommended_mail_date = None,
         ballot_postmark_deadline = Some (date_of_ymd 2024 11 5),
         ballot_receipt_deadline = None, return_methods = ''Post'' \<rparr>"
    by code_simp
  from rejected_date_parses_to_null [of "''11/05/2024''"] i
  have l: "lenient_mdY ''11/05/2024''" by blast
  from h a b i l show ?thesis by simp
qed

end
